theory Spec2Isabelle
  imports Complex_Main "HOL-Library.Stream" "HOL-Library.AList"
begin

section \<open>The JavaScript primitives the plugin relies on\<close>

text \<open>
  The plugin is TypeScript. Its strings are modelled as \<^typ>\<open>string\<close> (one \<^typ>\<open>char\<close> per
  code unit, which is exact for Latin-1 text), its integral numbers (counters, millisecond
  timestamps, configured limits) as \<^typ>\<open>int\<close>, and its probabilities and the results of
  \<^verbatim>\<open>Math.random()\<close> as \<^typ>\<open>real\<close>. Exceptions are values of the type \<open>error\<close>.
\<close>

datatype error = TypeError | SyntaxError | ExternalError

text \<open>
  The ambient effects are the wall clock, the random source and the logger. A \<open>World\<close>
  holds the successive answers of \<^verbatim>\<open>Date.now()\<close> and of \<^verbatim>\<open>Math.random()\<close> (every
  call consumes one answer) and the entries written through \<^verbatim>\<open>elizaLogger\<close>, oldest
  first.
\<close>

datatype LogEntry =
    LogChecking
  | LogFinished
  | LogProcessing string
  | LogSkipRateLimit string
  | LogSkipProbability string
  | LogWarnInvalid string
  | LogError error

record World =
  clock :: "int stream"
  randoms :: "real stream"
  logged :: "LogEntry list"

definition writeLog :: "LogEntry \<Rightarrow> World \<Rightarrow> World" where
  "writeLog e w = w\<lparr>logged := logged w @ [e]\<rparr>"

definition Date_now :: "World \<Rightarrow> int \<times> World" where
  "Date_now w = (shd (clock w), w\<lparr>clock := stl (clock w)\<rparr>)"

definition Math_random :: "World \<Rightarrow> real \<times> World" where
  "Math_random w = (shd (randoms w), w\<lparr>randoms := stl (randoms w)\<rparr>)"

subsection \<open>Strings\<close>

text \<open>\<^verbatim>\<open>String.prototype.trim\<close>: the white space and line terminators below Latin-1.\<close>

definition isWhiteSpace :: "char \<Rightarrow> bool" where
  "isWhiteSpace c =
     (c \<in> set [CHR 0x09, CHR 0x0A, CHR 0x0B, CHR 0x0C, CHR 0x0D, CHR 0x20, CHR 0xA0])"

definition trim :: "string \<Rightarrow> string" where
  "trim s = rev (dropWhile isWhiteSpace (rev (dropWhile isWhiteSpace s)))"

text \<open>
  \<^verbatim>\<open>s.lastIndexOf(c, pos)\<close> for a one-character search string: the greatest index
  \<open>i \<le> max pos 0\<close> with \<open>s[i] = c\<close>, and \<open>-1\<close> when there is none.
\<close>

fun lastIndexScan :: "char \<Rightarrow> string \<Rightarrow> int \<Rightarrow> int \<Rightarrow> int" where
  "lastIndexScan c [] i best = best"
| "lastIndexScan c (x # xs) i best = lastIndexScan c xs (i + 1) (if x = c then i else best)"

definition lastIndexOf :: "string \<Rightarrow> char \<Rightarrow> int \<Rightarrow> int" where
  "lastIndexOf s c pos = lastIndexScan c (take (nat (max pos 0) + 1) s) 0 (- 1)"

text \<open>
  \<^verbatim>\<open>s.slice(0, e)\<close>: a negative end counts from the end of the string, and the end is
  clamped to the string.
\<close>

definition slice0 :: "string \<Rightarrow> int \<Rightarrow> string" where
  "slice0 s e =
     (let n = int (length s);
          to = (if e < 0 then max (n + e) 0 else min e n)
      in take (nat to) s)"

section \<open>Posting client: truncation of generated content\<close>

definition MAX_TWEET_LENGTH :: int where
  "MAX_TWEET_LENGTH = 280"

definition truncateToCompleteSentence :: "string \<Rightarrow> string" where
  "truncateToCompleteSentence txt =
     (if int (length txt) \<le> MAX_TWEET_LENGTH then txt
      else
        let truncatedAtPeriod = slice0 txt (lastIndexOf txt (CHR ''.'') MAX_TWEET_LENGTH + 1) in
        if length (trim truncatedAtPeriod) > 0 then trim truncatedAtPeriod
        else
          let truncatedAtSpace = slice0 txt (lastIndexOf txt (CHR '' '') MAX_TWEET_LENGTH) in
          if length (trim truncatedAtSpace) > 0 then trim truncatedAtSpace @ ''...''
          else trim (slice0 txt (MAX_TWEET_LENGTH - 3)) @ ''...'')"

section \<open>Interaction client: the rate limiter\<close>

record InteractionLimits =
  maxRepliesPerThread :: int
  maxRepliesPerUser :: int
  minTimeBetweenReplies :: int
  checkIntervalMinutes :: int
  replyProbability :: real

text \<open>
  The three tracking maps of \<^verbatim>\<open>TwitterInteractionClient\<close> and the high-water mark
  \<^verbatim>\<open>client.lastCheckedTweetId\<close> (a \<^verbatim>\<open>bigint\<close>, or absent).
\<close>

record InteractionState =
  recentReplies :: "string \<rightharpoonup> int"
  threadReplies :: "string \<rightharpoonup> int"
  lastReplyTime :: "string \<rightharpoonup> int"
  lastCheckedTweetId :: "int option"

text \<open>\<^verbatim>\<open>map.get(k) || 0\<close>: an absent key (and a stored zero) reads as zero.\<close>

definition getOrZero :: "(string \<rightharpoonup> int) \<Rightarrow> string \<Rightarrow> int" where
  "getOrZero m k = (case m k of None \<Rightarrow> 0 | Some v \<Rightarrow> v)"

definition canReplyToUser ::
  "InteractionLimits \<Rightarrow> InteractionState \<Rightarrow> World \<Rightarrow> string \<Rightarrow> bool \<times> World" where
  "canReplyToUser lims st w uid =
     (let replyCount = getOrZero (recentReplies st) uid;
          lastReply = getOrZero (lastReplyTime st) uid;
          (now, w') = Date_now w;
          timeSinceLastReply = now - lastReply
      in (replyCount < maxRepliesPerUser lims \<and> timeSinceLastReply \<ge> minTimeBetweenReplies lims, w'))"

definition canReplyInThread :: "InteractionLimits \<Rightarrow> InteractionState \<Rightarrow> string \<Rightarrow> bool" where
  "canReplyInThread lims st cid =
     (getOrZero (threadReplies st) cid < maxRepliesPerThread lims)"

definition updateInteractionTracking ::
  "InteractionState \<Rightarrow> World \<Rightarrow> string \<Rightarrow> string \<Rightarrow> InteractionState \<times> World" where
  "updateInteractionTracking st w uid cid =
     (let currentReplies = getOrZero (recentReplies st) uid;
          st1 = st\<lparr>recentReplies := (recentReplies st)(uid \<mapsto> currentReplies + 1)\<rparr>;
          currentThreadReplies = getOrZero (threadReplies st1) cid;
          st2 = st1\<lparr>threadReplies := (threadReplies st1)(cid \<mapsto> currentThreadReplies + 1)\<rparr>;
          (now, w') = Date_now w
      in (st2\<lparr>lastReplyTime := (lastReplyTime st2)(uid \<mapsto> now)\<rparr>, w'))"

text \<open>A sequence of recorded replies, each given by its user and its conversation.\<close>

fun recordReplies ::
  "InteractionState \<Rightarrow> World \<Rightarrow> (string \<times> string) list \<Rightarrow> InteractionState \<times> World" where
  "recordReplies st w [] = (st, w)"
| "recordReplies st w ((uid, cid) # rs) =
     (let (st', w') = updateInteractionTracking st w uid cid in recordReplies st' w' rs)"

section \<open>Template manager\<close>

subsection \<open>Context values and conditions\<close>

text \<open>
  The context handed to \<^verbatim>\<open>getTemplate\<close> has the type \<^verbatim>\<open>any\<close>. Its values are modelled
  by \<open>JsValue\<close>; a \<open>JObj\<close> lists the own properties of a plain object.
\<close>

datatype JsValue =
    JUndefined
  | JNull
  | JBool bool
  | JNum real
  | JStr string
  | JObj "(string \<times> JsValue) list"

text \<open>
  The coercions of the language are taken as parameters, so that every result below holds
  whatever they compute: \<open>toStringJs\<close> is \<^verbatim>\<open>String(v)\<close>, \<open>toNumberJs\<close> is
  \<^verbatim>\<open>Number(v)\<close> with \<open>None\<close> for \<^verbatim>\<open>NaN\<close>, \<open>regExpTest p s\<close> is
  \<^verbatim>\<open>new RegExp(p).test(s)\<close> with \<open>None\<close> when the constructor throws a
  \<^verbatim>\<open>SyntaxError\<close>, and \<open>builtinProperty v part\<close> reads a property that is not an own
  property of a plain object: a property of a boolean, a number or a string, or one that an
  object inherits (\<^verbatim>\<open>constructor\<close>, \<^verbatim>\<open>toString\<close>, ...); it is \<open>JUndefined\<close> when there is
  none.
\<close>

record JsLib =
  toStringJs :: "JsValue \<Rightarrow> string"
  toNumberJs :: "JsValue \<Rightarrow> real option"
  regExpTest :: "string \<Rightarrow> string \<Rightarrow> bool option"
  builtinProperty :: "JsValue \<Rightarrow> string \<Rightarrow> JsValue"

record Condition =
  field :: string
  operator :: string
  value_c :: JsValue

record TemplateVariation =
  name :: string
  conditions :: "Condition list option"
  probability :: "real option"
  template :: string

record TemplateConfig =
  templates :: "string \<rightharpoonup> TemplateVariation list"

text \<open>
  \<open>templates\<close> holds the own keys of the object \<^verbatim>\<open>config.templates\<close>. An index expression
  on that object also finds the members that every object inherits; they are functions (or, for
  \<^verbatim>\<open>__proto__\<close>, an object) and have no \<^verbatim>\<open>filter\<close>.
\<close>

definition objectPrototypeKeys :: "string list" where
  "objectPrototypeKeys =
     [''constructor'', ''__proto__'', ''hasOwnProperty'', ''isPrototypeOf'',
      ''propertyIsEnumerable'', ''toLocaleString'', ''toString'', ''valueOf'',
      ''__defineGetter__'', ''__defineSetter__'', ''__lookupGetter__'', ''__lookupSetter__'']"

text \<open>
  \<^verbatim>\<open>lastTemplateUse\<close> is a \<^verbatim>\<open>Map\<close>: its entries are kept in insertion order, which the
  eviction reads, so it is an association list. \<^verbatim>\<open>Map.set\<close> is \<^const>\<open>AList.update\<close> (an
  existing key keeps its place, a new key goes last) and \<^verbatim>\<open>Map.delete\<close> is
  \<^const>\<open>AList.delete\<close>.
\<close>

type_synonym CooldownTable = "(string \<times> int) list"

record TemplateManager =
  config :: TemplateConfig
  lastTemplateUse :: CooldownTable

text \<open>\<^verbatim>\<open>path.split('.')\<close>: there is always at least one part.\<close>

fun splitDot :: "string \<Rightarrow> string list" where
  "splitDot [] = [[]]"
| "splitDot (c # cs) =
     (if c = CHR ''.'' then [] # splitDot cs
      else (case splitDot cs of p # ps \<Rightarrow> (c # p) # ps | [] \<Rightarrow> [[c]]))"

text \<open>\<^verbatim>\<open>acc?.[part]\<close>\<close>

definition getProperty :: "JsLib \<Rightarrow> JsValue \<Rightarrow> string \<Rightarrow> JsValue" where
  "getProperty lib acc part =
     (case acc of
        JUndefined \<Rightarrow> JUndefined
      | JNull \<Rightarrow> JUndefined
      | JObj props \<Rightarrow>
          (case map_of props part of None \<Rightarrow> builtinProperty lib acc part | Some v \<Rightarrow> v)
      | _ \<Rightarrow> builtinProperty lib acc part)"

definition getFieldValue :: "JsLib \<Rightarrow> JsValue \<Rightarrow> string \<Rightarrow> JsValue" where
  "getFieldValue lib obj path = foldl (getProperty lib) obj (splitDot path)"

text \<open>\<^verbatim>\<open>s.includes(sub)\<close>\<close>

fun includes_s :: "string \<Rightarrow> string \<Rightarrow> bool" where
  "includes_s [] sub = (sub = [])"
| "includes_s (c # cs) sub = (take (length sub) (c # cs) = sub \<or> includes_s cs sub)"

text \<open>
  \<^verbatim>\<open>a === b\<close>. Two objects are equal only when they are the same object; the context and
  the template configuration share none.
\<close>

fun strictEquals :: "JsValue \<Rightarrow> JsValue \<Rightarrow> bool" where
  "strictEquals JUndefined JUndefined = True"
| "strictEquals JNull JNull = True"
| "strictEquals (JBool a) (JBool b) = (a = b)"
| "strictEquals (JNum a) (JNum b) = (a = b)"
| "strictEquals (JStr a) (JStr b) = (a = b)"
| "strictEquals _ _ = False"

text \<open>A comparison with \<^verbatim>\<open>NaN\<close> on either side is false.\<close>

definition numLess :: "real option \<Rightarrow> real option \<Rightarrow> bool" where
  "numLess a b = (case (a, b) of (Some x, Some y) \<Rightarrow> x < y | _ \<Rightarrow> False)"

definition evaluateCondition :: "JsLib \<Rightarrow> Condition \<Rightarrow> JsValue \<Rightarrow> error + bool" where
  "evaluateCondition lib condition context =
     (let v = getFieldValue lib context (field condition) in
      if operator condition = ''contains'' then
        Inr (includes_s (toStringJs lib v) (toStringJs lib (value_c condition)))
      else if operator condition = ''equals'' then
        Inr (strictEquals v (value_c condition))
      else if operator condition = ''greaterThan'' then
        Inr (numLess (toNumberJs lib (value_c condition)) (toNumberJs lib v))
      else if operator condition = ''lessThan'' then
        Inr (numLess (toNumberJs lib v) (toNumberJs lib (value_c condition)))
      else if operator condition = ''matches'' then
        (case regExpTest lib (toStringJs lib (value_c condition)) (toStringJs lib v) of
           None \<Rightarrow> Inl SyntaxError
         | Some b \<Rightarrow> Inr b)
      else Inr False)"

text \<open>\<^verbatim>\<open>conditions.every(...)\<close> stops at the first condition that is false or throws.\<close>

fun everyCondition :: "JsLib \<Rightarrow> JsValue \<Rightarrow> Condition list \<Rightarrow> error + bool" where
  "everyCondition lib context [] = Inr True"
| "everyCondition lib context (c # cs) =
     (case evaluateCondition lib c context of
        Inl e \<Rightarrow> Inl e
      | Inr b \<Rightarrow> if b then everyCondition lib context cs else Inr False)"

subsection \<open>Cooldown, probability and selection\<close>

definition isTemplateOnCooldown :: "CooldownTable \<Rightarrow> World \<Rightarrow> string \<Rightarrow> bool \<times> World" where
  "isTemplateOnCooldown tbl w templateName =
     (case map_of tbl templateName of
        None \<Rightarrow> (False, w)
      | Some lastUse \<Rightarrow>
          if lastUse = 0 then (False, w)
          else (let (now, w') = Date_now w in (now - lastUse < 5 * 60 * 1000, w')))"

text \<open>
  The comparator \<^verbatim>\<open>([, a], [, b]) => b - a\<close> orders the entries by decreasing time stamp;
  the sort is stable.
\<close>

definition trackTemplateUse :: "string \<Rightarrow> CooldownTable \<Rightarrow> World \<Rightarrow> CooldownTable \<times> World" where
  "trackTemplateUse templateName tbl w =
     (let (now, w') = Date_now w;
          tbl1 = AList.update templateName now tbl
      in if length tbl1 > 100 then
           (let oldEntries = drop 50 (sort_key (\<lambda>e. - snd e) tbl1)
            in (foldl (\<lambda>m e. AList.delete (fst e) m) tbl1 oldEntries, w'))
         else (tbl1, w'))"

text \<open>\<^verbatim>\<open>!template.probability || Math.random() < template.probability\<close>\<close>

definition checkProbability :: "TemplateVariation \<Rightarrow> World \<Rightarrow> bool \<times> World" where
  "checkProbability t w =
     (case probability t of
        None \<Rightarrow> (True, w)
      | Some p \<Rightarrow>
          if p = 0 then (True, w)
          else (let (r, w') = Math_random w in (r < p, w')))"

text \<open>
  \<^verbatim>\<open>[...array].sort(() => Math.random() - 0.5)\<close>. The language leaves the algorithm of
  \<^verbatim>\<open>sort\<close> to the engine; the model is a stable insertion sort that draws one random
  number for each comparison. A comparison is the call of the comparator on a later and an
  earlier element, and a negative answer puts the later element first: \<open>insertRandom x ys\<close>
  moves \<open>x\<close>, which preceded \<open>ys\<close> in the array, behind the elements of \<open>ys\<close> for which the
  answer is negative, up to the first one for which it is not. On an array of two elements
  this is what the insertion sort of the engine does: a draw below \<open>0.5\<close> swaps them.
\<close>

fun insertRandom :: "'a \<Rightarrow> 'a list \<Rightarrow> World \<Rightarrow> 'a list \<times> World" where
  "insertRandom x [] w = ([x], w)"
| "insertRandom x (y # ys) w =
     (let (r, w1) = Math_random w in
      if r - 0.5 < 0 then (let (zs, w2) = insertRandom x ys w1 in (y # zs, w2))
      else (x # y # ys, w1))"

fun shuffleArray :: "'a list \<Rightarrow> World \<Rightarrow> 'a list \<times> World" where
  "shuffleArray [] w = ([], w)"
| "shuffleArray (x # xs) w = (let (ys, w1) = shuffleArray xs w in insertRandom x ys w1)"

text \<open>The callback of \<^verbatim>\<open>templates.filter\<close> in \<^verbatim>\<open>getTemplate\<close>.\<close>

definition isEligible ::
  "JsLib \<Rightarrow> JsValue \<Rightarrow> CooldownTable \<Rightarrow> TemplateVariation \<Rightarrow> World \<Rightarrow> (error + bool) \<times> World" where
  "isEligible lib context tbl t w =
     (let (onCooldown, w1) = isTemplateOnCooldown tbl w (name t) in
      if onCooldown then (Inr False, w1)
      else
        (case conditions t of
           None \<Rightarrow> (let (b, w2) = checkProbability t w1 in (Inr b, w2))
         | Some cs \<Rightarrow>
             (case everyCondition lib context cs of
                Inl e \<Rightarrow> (Inl e, w1)
              | Inr holds \<Rightarrow>
                  if holds then (let (b, w2) = checkProbability t w1 in (Inr b, w2))
                  else (Inr False, w1))))"

fun filterEligible ::
  "JsLib \<Rightarrow> JsValue \<Rightarrow> CooldownTable \<Rightarrow> TemplateVariation list \<Rightarrow> World
     \<Rightarrow> (error + TemplateVariation list) \<times> World" where
  "filterEligible lib context tbl [] w = (Inr [], w)"
| "filterEligible lib context tbl (t # ts) w =
     (case isEligible lib context tbl t w of
        (Inl e, w1) \<Rightarrow> (Inl e, w1)
      | (Inr keep, w1) \<Rightarrow>
          (case filterEligible lib context tbl ts w1 of
             (Inl e, w2) \<Rightarrow> (Inl e, w2)
           | (Inr rest, w2) \<Rightarrow> (Inr (if keep then t # rest else rest), w2)))"

definition getTemplate ::
  "JsLib \<Rightarrow> TemplateManager \<Rightarrow> string \<Rightarrow> JsValue \<Rightarrow> World
     \<Rightarrow> (error + TemplateVariation option) \<times> TemplateManager \<times> World" where
  "getTemplate lib mgr type context w =
     (case templates (config mgr) type of
        None \<Rightarrow>
          if type \<in> set objectPrototypeKeys then (Inl TypeError, mgr, w)
          else (Inr None, mgr, w)
      | Some ts \<Rightarrow>
          (case filterEligible lib context (lastTemplateUse mgr) ts w of
             (Inl e, w1) \<Rightarrow> (Inl e, mgr, w1)
           | (Inr eligibleTemplates, w1) \<Rightarrow>
               if length eligibleTemplates = 0 then (Inr None, mgr, w1)
               else
                 (let (shuffled, w2) = shuffleArray eligibleTemplates w1 in
                  case shuffled of
                    [] \<Rightarrow> (Inl TypeError, mgr, w2)
                  | selected # _ \<Rightarrow>
                      (let (tbl', w3) = trackTemplateUse (name selected) (lastTemplateUse mgr) w2
                       in (Inr (Some selected), mgr\<lparr>lastTemplateUse := tbl'\<rparr>, w3)))))"

section \<open>Interaction client: the engagement scheduler\<close>

subsection \<open>Tweets, identifiers and the external collaborators\<close>

record Tweet =
  id_tw :: string
  userId :: string
  conversationId :: string
  inReplyToStatusId :: "string option"
  text_tw :: string

text \<open>
  \<^verbatim>\<open>BigInt(s)\<close> on a string: white space around the literal is dropped; nothing is left
  denotes zero; a literal is a sequence of decimal digits, with a sign or without, or a sequence
  of hexadecimal, octal or binary digits behind \<^verbatim>\<open>0x\<close>, \<^verbatim>\<open>0o\<close> or \<^verbatim>\<open>0b\<close>; anything
  else makes the conversion throw a \<^verbatim>\<open>SyntaxError\<close>.
\<close>

definition digitOf :: "char \<Rightarrow> int option" where
  "digitOf c =
     map_of [(CHR ''0'', 0), (CHR ''1'', 1), (CHR ''2'', 2), (CHR ''3'', 3), (CHR ''4'', 4),
             (CHR ''5'', 5), (CHR ''6'', 6), (CHR ''7'', 7), (CHR ''8'', 8), (CHR ''9'', 9)] c"

definition hexDigitOf :: "char \<Rightarrow> int option" where
  "hexDigitOf c =
     (case digitOf c of
        Some d \<Rightarrow> Some d
      | None \<Rightarrow>
          map_of [(CHR ''a'', 10), (CHR ''b'', 11), (CHR ''c'', 12), (CHR ''d'', 13),
                  (CHR ''e'', 14), (CHR ''f'', 15), (CHR ''A'', 10), (CHR ''B'', 11),
                  (CHR ''C'', 12), (CHR ''D'', 13), (CHR ''E'', 14), (CHR ''F'', 15)] c)"

fun parseDigits :: "string \<Rightarrow> int \<Rightarrow> int option" where
  "parseDigits [] acc = Some acc"
| "parseDigits (c # cs) acc =
     (case digitOf c of None \<Rightarrow> None | Some d \<Rightarrow> parseDigits cs (10 * acc + d))"

fun parseRadix :: "int \<Rightarrow> string \<Rightarrow> int \<Rightarrow> int option" where
  "parseRadix base [] acc = Some acc"
| "parseRadix base (c # cs) acc =
     (case hexDigitOf c of
        None \<Rightarrow> None
      | Some d \<Rightarrow> if d < base then parseRadix base cs (base * acc + d) else None)"

definition decimalDigits :: "string \<Rightarrow> int option" where
  "decimalDigits s = (if s = [] then None else parseDigits s 0)"

definition nonDecimalDigits :: "int \<Rightarrow> string \<Rightarrow> int option" where
  "nonDecimalDigits base s = (if s = [] then None else parseRadix base s 0)"

fun signedInteger :: "string \<Rightarrow> int option" where
  "signedInteger [] = None"
| "signedInteger (c # cs) =
     (if c = CHR ''+'' then decimalDigits cs
      else if c = CHR ''-'' then map_option uminus (decimalDigits cs)
      else decimalDigits (c # cs))"

fun strIntegerLiteral :: "string \<Rightarrow> int option" where
  "strIntegerLiteral (c # d # rest) =
     (if c = CHR ''0'' \<and> (d = CHR ''x'' \<or> d = CHR ''X'') then nonDecimalDigits 16 rest
      else if c = CHR ''0'' \<and> (d = CHR ''o'' \<or> d = CHR ''O'') then nonDecimalDigits 8 rest
      else if c = CHR ''0'' \<and> (d = CHR ''b'' \<or> d = CHR ''B'') then nonDecimalDigits 2 rest
      else signedInteger (c # d # rest))"
| "strIntegerLiteral s = signedInteger s"

definition BigInt :: "string \<Rightarrow> error + int" where
  "BigInt s =
     (let t = trim s in
      if t = [] then Inr 0
      else (case strIntegerLiteral t of None \<Rightarrow> Inl SyntaxError | Some n \<Rightarrow> Inr n))"

text \<open>
  \<^verbatim>\<open>a.localeCompare(b)\<close>: on strings of ASCII digits the collation compares the code units
  from the left, and a proper prefix comes first.
\<close>

fun localeCompare :: "string \<Rightarrow> string \<Rightarrow> int" where
  "localeCompare [] [] = 0"
| "localeCompare [] (y # ys) = - 1"
| "localeCompare (x # xs) [] = 1"
| "localeCompare (x # xs) (y # ys) =
     (if x = y then localeCompare xs ys
      else if (of_char x :: nat) < of_char y then - 1 else 1)"

text \<open>
  \<^verbatim>\<open>Array.prototype.sort\<close> with a consistent comparator is a stable sort: \<open>insertBy\<close>
  places \<open>x\<close>, which preceded \<open>ys\<close>, before the first element it does not exceed.
\<close>

fun insertBy :: "('a \<Rightarrow> 'a \<Rightarrow> int) \<Rightarrow> 'a \<Rightarrow> 'a list \<Rightarrow> 'a list" where
  "insertBy cmp x [] = [x]"
| "insertBy cmp x (y # ys) = (if cmp x y \<le> 0 then x # y # ys else y # insertBy cmp x ys)"

definition sortBy :: "('a \<Rightarrow> 'a \<Rightarrow> int) \<Rightarrow> 'a list \<Rightarrow> 'a list" where
  "sortBy cmp xs = foldr (insertBy cmp) xs []"

text \<open>
  \<^verbatim>\<open>[...new Set(xs)]\<close>: the first occurrence of every element, in the order of \<open>xs\<close>. The
  elements of the set are objects, which are equal only when they are the same object, so the
  fetched tweets are handled by reference (a natural number) and read through a heap.
\<close>

definition newSet :: "'a list \<Rightarrow> 'a list" where
  "newSet xs = rev (remdups (rev xs))"

text \<open>
  The collaborators outside the plugin answer as the fields of \<open>Env\<close> say. A call that can
  throw answers with an \<open>error\<close> on the left of a sum, or with \<open>Some error\<close> when it has no
  result. \<open>buildConversationThreadUtil\<close> is the function that \<^verbatim>\<open>processSingleTweet\<close>
  imports from \<^verbatim>\<open>./utils.ts\<close>; \<open>generateTweetContent\<close> is the generation of the reply text,
  which rests on the language model.
\<close>

record Env =
  profileId :: string
  heap :: "nat \<Rightarrow> Tweet"
  fetchSearchTweets :: "error + nat list"
  ensureConnection :: "Tweet \<Rightarrow> error option"
  buildConversationThreadUtil :: "Tweet \<Rightarrow> error + Tweet list"
  generateTweetContent :: "Tweet \<Rightarrow> Tweet list \<Rightarrow> error + string"
  trackInteraction :: "Tweet \<Rightarrow> error option"
  cacheLatestCheckedTweetId :: "error option"
  getTweet :: "string \<Rightarrow> error + Tweet option"
  getMemoryById :: "string \<Rightarrow> error + bool"
  createMemoryForThreadTweet :: "Tweet \<Rightarrow> error option"

subsection \<open>One check cycle\<close>

definition fetchAndFilterTweets :: "Env \<Rightarrow> error + nat list" where
  "fetchAndFilterTweets env =
     (case fetchSearchTweets env of
        Inl e \<Rightarrow> Inl e
      | Inr tweetCandidates \<Rightarrow>
          Inr (filter (\<lambda>r. userId (heap env r) \<noteq> profileId env)
                 (sortBy (\<lambda>a b. localeCompare (id_tw (heap env a)) (id_tw (heap env b)))
                    (newSet tweetCandidates))))"

definition shouldProcessTweet ::
  "InteractionLimits \<Rightarrow> InteractionState \<Rightarrow> World \<Rightarrow> Tweet \<Rightarrow> bool \<times> World" where
  "shouldProcessTweet lims st w tweet =
     (let (userOk, w1) = canReplyToUser lims st w (userId tweet) in
      if \<not> userOk \<or> \<not> canReplyInThread lims st (conversationId tweet) then
        (False, writeLog (LogSkipRateLimit (id_tw tweet)) w1)
      else
        (let (r, w2) = Math_random w1 in
         if r > replyProbability lims then (False, writeLog (LogSkipProbability (id_tw tweet)) w2)
         else (True, w2)))"

datatype Action = RESPOND | IGNORE | ERROR

text \<open>
  \<^verbatim>\<open>handleTweet\<close> of the template client: its whole body is inside a
  \<^verbatim>\<open>try\<close>, and its \<^verbatim>\<open>catch\<close> logs the error and answers with the action \<open>ERROR\<close>.
  \<^verbatim>\<open>trackInteraction\<close> reads \<^verbatim>\<open>Date.now()\<close> for the record that it then hands to the
  cache; the field \<open>trackInteraction\<close> of \<open>Env\<close> is that write to the cache.
\<close>

definition handleTweet :: "Env \<Rightarrow> Tweet \<Rightarrow> Tweet list \<Rightarrow> World \<Rightarrow> Action \<times> World" where
  "handleTweet env tweet thread w =
     (case generateTweetContent env tweet thread of
        Inl e \<Rightarrow> (ERROR, writeLog (LogError e) w)
      | Inr content \<Rightarrow>
          if content = [] then (IGNORE, w)
          else
            (let (now, w1) = Date_now w in
             case trackInteraction env tweet of
               Some e \<Rightarrow> (ERROR, writeLog (LogError e) w1)
             | None \<Rightarrow> (RESPOND, w1)))"

text \<open>
  The functions below can throw; they answer with the error, if any, and with the state and
  the world as they are at that moment.
\<close>

definition processSingleTweet ::
  "Env \<Rightarrow> InteractionState \<Rightarrow> World \<Rightarrow> Tweet \<Rightarrow> error option \<times> InteractionState \<times> World" where
  "processSingleTweet env st w tweet =
     (let w0 = writeLog (LogProcessing (id_tw tweet)) w in
      case ensureConnection env tweet of
        Some e \<Rightarrow> (Some e, st, w0)
      | None \<Rightarrow>
          (case buildConversationThreadUtil env tweet of
             Inl e \<Rightarrow> (Some e, st, w0)
           | Inr thread \<Rightarrow>
               (let (action, w1) = handleTweet env tweet thread w0 in
                if action = RESPOND then
                  (let (st', w2) =
                         updateInteractionTracking st w1 (userId tweet) (conversationId tweet)
                   in (None, st', w2))
                else (None, st, w1))))"

text \<open>
  The guard \<^verbatim>\<open>!lastCheckedTweetId || BigInt(tweet.id) > lastCheckedTweetId\<close>: an absent
  mark and the mark \<open>0n\<close> are falsy, and then the identifier is not converted.
\<close>

definition isNewerThanMark :: "InteractionState \<Rightarrow> Tweet \<Rightarrow> error + bool" where
  "isNewerThanMark st tweet =
     (case lastCheckedTweetId st of
        None \<Rightarrow> Inr True
      | Some mark \<Rightarrow>
          if mark = 0 then Inr True
          else (case BigInt (id_tw tweet) of Inl e \<Rightarrow> Inl e | Inr n \<Rightarrow> Inr (n > mark)))"

definition processTweetCandidate ::
  "Env \<Rightarrow> InteractionLimits \<Rightarrow> InteractionState \<Rightarrow> World \<Rightarrow> Tweet
     \<Rightarrow> error option \<times> InteractionState \<times> World" where
  "processTweetCandidate env lims st w tweet =
     (case isNewerThanMark st tweet of
        Inl e \<Rightarrow> (Some e, st, w)
      | Inr newer \<Rightarrow>
          if \<not> newer then (None, st, w)
          else
            (let (admitted, w1) = shouldProcessTweet lims st w tweet in
             if \<not> admitted then (None, st, w1)
             else
               (case processSingleTweet env st w1 tweet of
                  (Some e, st1, w2) \<Rightarrow> (Some e, st1, w2)
                | (None, st1, w2) \<Rightarrow>
                    (case BigInt (id_tw tweet) of
                       Inl e \<Rightarrow> (Some e, st1, w2)
                     | Inr n \<Rightarrow> (None, st1\<lparr>lastCheckedTweetId := Some n\<rparr>, w2)))))"

text \<open>The \<^verbatim>\<open>for\<close> loop over the candidates: a throw leaves the loop.\<close>

fun processCandidates ::
  "Env \<Rightarrow> InteractionLimits \<Rightarrow> InteractionState \<Rightarrow> World \<Rightarrow> Tweet list
     \<Rightarrow> error option \<times> InteractionState \<times> World" where
  "processCandidates env lims st w [] = (None, st, w)"
| "processCandidates env lims st w (tweet # rest) =
     (case processTweetCandidate env lims st w tweet of
        (Some e, st1, w1) \<Rightarrow> (Some e, st1, w1)
      | (None, st1, w1) \<Rightarrow> processCandidates env lims st1 w1 rest)"

text \<open>
  \<^verbatim>\<open>handleTwitterInteractions\<close>: one \<^verbatim>\<open>try\<close> around the fetch, the loop and the caching
  of the mark, whose \<^verbatim>\<open>catch\<close> logs the error.
\<close>

definition handleTwitterInteractions ::
  "Env \<Rightarrow> InteractionLimits \<Rightarrow> InteractionState \<Rightarrow> World
     \<Rightarrow> error option \<times> InteractionState \<times> World" where
  "handleTwitterInteractions env lims st w =
     (let w0 = writeLog LogChecking w in
      case fetchAndFilterTweets env of
        Inl e \<Rightarrow> (None, st, writeLog (LogError e) w0)
      | Inr tweetCandidates \<Rightarrow>
          (case processCandidates env lims st w0 (map (heap env) tweetCandidates) of
             (Some e, st1, w1) \<Rightarrow> (None, st1, writeLog (LogError e) w1)
           | (None, st1, w1) \<Rightarrow>
               (case cacheLatestCheckedTweetId env of
                  Some e \<Rightarrow> (None, st1, writeLog (LogError e) w1)
                | None \<Rightarrow> (None, st1, writeLog LogFinished w1))))"

text \<open>
  \<^verbatim>\<open>start\<close>: each cycle awaits \<^verbatim>\<open>handleTwitterInteractions\<close> and only then schedules the
  next one, so a cycle that threw would end the loop. \<open>runCycles\<close> runs one cycle for each
  element of a list that gives the collaborators' answers of that cycle, and counts the cycles
  begun.
\<close>

fun runCycles ::
  "Env list \<Rightarrow> InteractionLimits \<Rightarrow> InteractionState \<Rightarrow> World
     \<Rightarrow> error option \<times> nat \<times> InteractionState \<times> World" where
  "runCycles [] lims st w = (None, 0, st, w)"
| "runCycles (env # envs) lims st w =
     (case handleTwitterInteractions env lims st w of
        (Some e, st1, w1) \<Rightarrow> (Some e, 1, st1, w1)
      | (None, st1, w1) \<Rightarrow>
          (case runCycles envs lims st1 w1 of (err, n, st2, w2) \<Rightarrow> (err, Suc n, st2, w2)))"

subsection \<open>Thread reconstruction\<close>

text \<open>
  The method \<^verbatim>\<open>buildConversationThread\<close> of the interaction client. \<open>thread\<close> and
  \<open>visited\<close> are the two local collections that the inner function \<^verbatim>\<open>processThread\<close>
  mutates; \<open>createdMemories\<close> lists the tweets for which a memory was created.
\<close>

record ThreadState =
  thread :: "Tweet list"
  visited :: "string set"
  createdMemories :: "string list"








section \<open>Manager: special interactions\<close>

text \<open>
  The mapping comes from \<^verbatim>\<open>JSON.parse\<close> and is only cast to its type, so a field can be
  missing, and the value of a key can be \<^verbatim>\<open>null\<close> (\<open>None\<close> below) instead of an object.
  The keys of an object are distinct; the mapping is an association list in the order of
  \<^verbatim>\<open>Object.entries\<close>.
\<close>

record SpecialInteraction =
  handle :: "string option"
  topics :: "string list option"
  templates_si :: "string list option"
  probability_si :: "real option"
  cooldown :: "int option"

type_synonym SpecialInteractions = "(string \<times> SpecialInteraction option) list"

text \<open>
  \<^verbatim>\<open>!interaction.handle || !interaction.templates || !interaction.probability\<close>: a missing
  field, the empty string and the number 0 are falsy; an array, also an empty one, is not.
\<close>

definition isInvalidInteraction :: "SpecialInteraction \<Rightarrow> bool" where
  "isInvalidInteraction i =
     (handle i = None \<or> handle i = Some [] \<or> templates_si i = None \<or>
      probability_si i = None \<or> probability_si i = Some 0)"

text \<open>The state that \<^verbatim>\<open>setSpecialInteractions\<close> writes, in the post and the interaction client alike.\<close>

record SpecialState =
  specialInteractions :: SpecialInteractions
  lastSpecialInteraction :: "string \<rightharpoonup> int"

definition setSpecialInteractions :: "SpecialInteractions \<Rightarrow> SpecialState \<Rightarrow> SpecialState" where
  "setSpecialInteractions interactions c =
     c\<lparr>specialInteractions := interactions,
       lastSpecialInteraction :=
         foldl (\<lambda>m key. m(key \<mapsto> 0)) (lastSpecialInteraction c) (map fst interactions)\<rparr>"

record TwitterManager =
  post :: SpecialState
  interaction :: SpecialState

text \<open>
  The validation loop runs over the entries as they were at its start and deletes from the
  mapping itself; reading a field of \<^verbatim>\<open>null\<close> throws a \<^verbatim>\<open>TypeError\<close>.
\<close>

fun validateInteractions ::
  "(string \<times> SpecialInteraction option) list \<Rightarrow> SpecialInteractions \<Rightarrow> World
     \<Rightarrow> error option \<times> SpecialInteractions \<times> World" where
  "validateInteractions [] interactions w = (None, interactions, w)"
| "validateInteractions ((key, entry) # rest) interactions w =
     (case entry of
        None \<Rightarrow> (Some TypeError, interactions, w)
      | Some i \<Rightarrow>
          if isInvalidInteraction i then
            validateInteractions rest (AList.delete key interactions) (writeLog (LogWarnInvalid key) w)
          else validateInteractions rest interactions w)"

text \<open>The keys that the validation loop deletes, and the entries that it leaves.\<close>

definition invalidKeys :: "(string \<times> SpecialInteraction option) list \<Rightarrow> string list" where
  "invalidKeys todo =
     map fst (filter (\<lambda>p. case snd p of None \<Rightarrow> False | Some i \<Rightarrow> isInvalidInteraction i) todo)"

definition isRegistered :: "string \<times> SpecialInteraction option \<Rightarrow> bool" where
  "isRegistered p = (case snd p of None \<Rightarrow> False | Some i \<Rightarrow> \<not> isInvalidInteraction i)"

text \<open>
  An entry as the clients are to receive it: its handle is a non-empty string, its templates
  are present, and its probability is present and not 0.
\<close>

definition keptInteraction :: "SpecialInteraction \<Rightarrow> bool" where
  "keptInteraction i =
     ((case handle i of None \<Rightarrow> False | Some h \<Rightarrow> h \<noteq> []) \<and>
      (case templates_si i of None \<Rightarrow> False | Some ts \<Rightarrow> True) \<and>
      (case probability_si i of None \<Rightarrow> False | Some p \<Rightarrow> p \<noteq> 0))"

definition keptEntry :: "string \<times> SpecialInteraction option \<Rightarrow> bool" where
  "keptEntry p = (case snd p of None \<Rightarrow> False | Some i \<Rightarrow> keptInteraction i)"

text \<open>
  \<^verbatim>\<open>specialInteractionSchema\<close> of the configuration: a handle, topics and templates, and a
  probability between 0 and 1, both included; the cooldown is optional.
\<close>

definition specialInteractionSchema :: "SpecialInteraction \<Rightarrow> bool" where
  "specialInteractionSchema i =
     (handle i \<noteq> None \<and> topics i \<noteq> None \<and> templates_si i \<noteq> None \<and>
      (case probability_si i of None \<Rightarrow> False | Some p \<Rightarrow> 0 \<le> p \<and> p \<le> 1))"

definition setupSpecialInteractions ::
  "SpecialInteractions \<Rightarrow> TwitterManager \<Rightarrow> World \<Rightarrow> error option \<times> TwitterManager \<times> World" where
  "setupSpecialInteractions interactions mgr w =
     (case validateInteractions interactions interactions w of
        (Some e, remaining, w') \<Rightarrow> (Some e, mgr, w')
      | (None, remaining, w') \<Rightarrow>
          (None,
           mgr\<lparr>post := setSpecialInteractions remaining (post mgr),
               interaction := setSpecialInteractions remaining (interaction mgr)\<rparr>,
           w'))"

section \<open>Example inputs\<close>

text \<open>
  Concrete inputs on which the results below are run. \<open>exampleLib\<close> gives the coercions on
  the values that occur in the examples: \<^verbatim>\<open>String\<close> of a string is the string itself, and a
  pattern without metacharacters matches where it occurs.
\<close>

definition exampleLib :: JsLib where
  "exampleLib =
     \<lparr>toStringJs = (\<lambda>v. case v of JStr s \<Rightarrow> s | _ \<Rightarrow> ''undefined''),
      toNumberJs = (\<lambda>v. case v of JNum r \<Rightarrow> Some r | _ \<Rightarrow> None),
      regExpTest = (\<lambda>pattern s. Some (includes_s s pattern)),
      builtinProperty = (\<lambda>v part. JUndefined)\<rparr>"

definition exampleWorld :: World where
  "exampleWorld = \<lparr>clock = sconst 1700000000000, randoms = sconst (1 / 2), logged = []\<rparr>"

definition gmCondition :: Condition where
  "gmCondition = \<lparr>field = ''currentPost'', operator = ''contains'', value_c = JStr ''gm''\<rparr>"

definition gmTemplate :: TemplateVariation where
  "gmTemplate =
     \<lparr>name = ''greeting'', conditions = Some [gmCondition], probability = None,
      template = ''Answer the greeting''\<rparr>"

definition gmManager :: TemplateManager where
  "gmManager = \<lparr>config = \<lparr>templates = [''reply'' \<mapsto> [gmTemplate]]\<rparr>, lastTemplateUse = []\<rparr>"

definition gmContext :: JsValue where
  "gmContext = JObj [(''isReply'', JBool True), (''currentPost'', JStr ''gm frens'')]"

text \<open>A clock whose first three readings are a minute apart.\<close>

definition tickingWorld :: World where
  "tickingWorld =
     \<lparr>clock = 1700000000000 ## 1700000060000 ## sconst 1700000120000,
      randoms = sconst (1 / 2), logged = []\<rparr>"

text \<open>A cooldown table of one hundred names, the name of \<open>i\<close> letters last used at time \<open>i\<close>.\<close>

definition fullTable :: CooldownTable where
  "fullTable = map (\<lambda>i. (replicate i (CHR ''t''), int i)) [1..<101]"

text \<open>
  The limits as they are without any setting, an interaction client that has recorded nothing,
  and collaborators that all succeed: the search finds two mentions, by two other users.
\<close>

definition defaultLimits :: InteractionLimits where
  "defaultLimits =
     \<lparr>maxRepliesPerThread = 2, maxRepliesPerUser = 5, minTimeBetweenReplies = 300000,
      checkIntervalMinutes = 3, replyProbability = 1 / 2\<rparr>"

definition freshState :: InteractionState where
  "freshState =
     \<lparr>recentReplies = Map.empty, threadReplies = Map.empty, lastReplyTime = Map.empty,
      lastCheckedTweetId = None\<rparr>"

definition tweetOf :: "string \<Rightarrow> string \<Rightarrow> string option \<Rightarrow> Tweet" where
  "tweetOf i u p =
     \<lparr>id_tw = i, userId = u, conversationId = ''conversation'', inReplyToStatusId = p,
      text_tw = ''gm''\<rparr>"

definition exampleEnv :: Env where
  "exampleEnv =
     \<lparr>profileId = ''agent'',
      heap = (\<lambda>r. if r = 1 then tweetOf ''1001'' ''bob'' None else tweetOf ''1002'' ''carol'' None),
      fetchSearchTweets = Inr [1, 2],
      ensureConnection = (\<lambda>t. None),
      buildConversationThreadUtil = (\<lambda>t. Inr [t]),
      generateTweetContent = (\<lambda>t th. Inr ''gm to you''),
      trackInteraction = (\<lambda>t. None),
      cacheLatestCheckedTweetId = None,
      getTweet = (\<lambda>i. Inr None),
      getMemoryById = (\<lambda>i. Inr False),
      createMemoryForThreadTweet = (\<lambda>t. None)\<rparr>"

text \<open>The same, but the connection for the first mention cannot be set up.\<close>

definition failingEnv :: Env where
  "failingEnv =
     exampleEnv\<lparr>ensureConnection :=
       (\<lambda>t. if id_tw t = ''1001'' then Some ExternalError else None)\<rparr>"

text \<open>The search finds the tweets 9 and 10, in this order.\<close>

definition nineTenEnv :: Env where
  "nineTenEnv =
     exampleEnv\<lparr>heap :=
       (\<lambda>r. if r = 1 then tweetOf ''9'' ''bob'' None else tweetOf ''10'' ''carol'' None)\<rparr>"


text \<open>Two special interactions that the schema accepts; the second has probability 0.\<close>

definition vipInteraction :: SpecialInteraction where
  "vipInteraction =
     \<lparr>handle = Some ''vip'', topics = Some [''markets''], templates_si = Some [''praise''],
      probability_si = Some (1 / 2), cooldown = None\<rparr>"

definition mutedInteraction :: SpecialInteraction where
  "mutedInteraction =
     \<lparr>handle = Some ''muted'', topics = Some [''markets''], templates_si = Some [''roast''],
      probability_si = Some 0, cooldown = Some 86400000\<rparr>"

text \<open>
  Two more that the code's test rejects: the handle of the first is the empty string, the
  second has no probability.
\<close>

definition quietInteraction :: SpecialInteraction where
  "quietInteraction =
     \<lparr>handle = Some [], topics = Some [''markets''], templates_si = Some [''praise''],
      probability_si = Some (1 / 2), cooldown = None\<rparr>"

definition unweightedInteraction :: SpecialInteraction where
  "unweightedInteraction =
     \<lparr>handle = Some ''unweighted'', topics = Some [''markets''], templates_si = Some [''praise''],
      probability_si = None, cooldown = None\<rparr>"

definition freshManager :: TwitterManager where
  "freshManager =
     \<lparr>post = \<lparr>specialInteractions = [], lastSpecialInteraction = Map.empty\<rparr>,
      interaction = \<lparr>specialInteractions = [], lastSpecialInteraction = Map.empty\<rparr>\<rparr>"

section \<open>Properties\<close>

subsection \<open>Tweet identifiers\<close>

lemma digitOf_chars: "digitOf c = Some d \<Longrightarrow> c \<in> set ''0123456789''"
  by (auto simp: digitOf_def split: if_splits)

lemma digit_not_space: "digitOf c = Some d \<Longrightarrow> \<not> isWhiteSpace c"
  by (auto simp: digitOf_def isWhiteSpace_def split: if_splits)

lemma trim_digits:
  assumes "list_all (\<lambda>c. digitOf c \<noteq> None) s"
  shows "trim s = s"
proof -
  have d: "\<And>xs. list_all (\<lambda>c. digitOf c \<noteq> None) xs \<Longrightarrow> dropWhile isWhiteSpace xs = xs"
  proof -
    fix xs :: string assume a: "list_all (\<lambda>c. digitOf c \<noteq> None) xs"
    show "dropWhile isWhiteSpace xs = xs"
    proof (cases xs)
      case Nil
      then show ?thesis by simp
    next
      case (Cons c cs)
      with a obtain v where "digitOf c = Some v" by auto
      with digit_not_space have "\<not> isWhiteSpace c" by blast
      with Cons show ?thesis by simp
    qed
  qed
  have "list_all (\<lambda>c. digitOf c \<noteq> None) (rev s)" using assms by (simp add: list_all_iff)
  with d[OF assms] d[of "rev s"] show ?thesis by (simp add: trim_def)
qed

lemma signedInteger_digits:
  assumes "s \<noteq> []" "list_all (\<lambda>c. digitOf c \<noteq> None) s"
  shows "signedInteger s = parseDigits s 0"
proof -
  from assms obtain c cs where s: "s = c # cs" by (cases s) auto
  with assms obtain v where "digitOf c = Some v" by auto
  from digitOf_chars[OF this] have "c \<noteq> CHR ''+''" "c \<noteq> CHR ''-''" by auto
  with s show ?thesis by (simp add: decimalDigits_def)
qed

lemma strIntegerLiteral_digits:
  assumes "s \<noteq> []" "list_all (\<lambda>c. digitOf c \<noteq> None) s"
  shows "strIntegerLiteral s = parseDigits s 0"
proof -
  from assms obtain c cs where s: "s = c # cs" by (cases s) auto
  show ?thesis
  proof (cases cs)
    case Nil
    with s signedInteger_digits[OF assms] show ?thesis by simp
  next
    case (Cons d rest)
    with s assms obtain v where "digitOf d = Some v" by auto
    from digitOf_chars[OF this]
    have "d \<noteq> CHR ''x''" "d \<noteq> CHR ''X''" "d \<noteq> CHR ''o''" "d \<noteq> CHR ''O''"
      "d \<noteq> CHR ''b''" "d \<noteq> CHR ''B''" by auto
    with s Cons signedInteger_digits[OF assms] show ?thesis by simp
  qed
qed

lemma BigInt_digits:
  assumes "list_all (\<lambda>c. digitOf c \<noteq> None) s" "parseDigits s 0 = Some n"
  shows "BigInt s = Inr n"
proof (cases "s = []")
  case True
  with assms show ?thesis by (simp add: BigInt_def trim_def)
next
  case False
  with assms trim_digits[OF assms(1)] strIntegerLiteral_digits[OF False assms(1)]
  show ?thesis by (simp add: BigInt_def)
qed

lemma BigInt_examples:
  "BigInt ''1001'' = Inr 1001" "BigInt ''1002'' = Inr 1002"
  "BigInt ''9'' = Inr 9" "BigInt ''10'' = Inr 10"
  by (simp_all add: BigInt_digits digitOf_def)

text \<open>Literals that are not tweet identifiers.\<close>

lemma BigInt_other_literals:
  "BigInt '' 12 '' = Inr 12" "BigInt ''-5'' = Inr (- 5)" "BigInt ''0x1f'' = Inr 31"
  "BigInt [] = Inr 0" "BigInt ''12n'' = Inl SyntaxError" "BigInt ''-0x1'' = Inl SyntaxError"
  by code_simp+

subsection \<open>Truncation\<close>

lemma truncate_short_unchanged:
  "length txt \<le> 280 \<Longrightarrow> truncateToCompleteSentence txt = txt"
  by (simp add: truncateToCompleteSentence_def MAX_TWEET_LENGTH_def)

text \<open>
  Claim C4. The claim is that a text longer than 280 characters comes back with at most 280
  characters. The code does not keep that bound. On a text of 300 letters with no period and
  no space, \<^verbatim>\<open>lastIndexOf(" ", 280)\<close> is \<open>-1\<close>, so \<^verbatim>\<open>text.slice(0, -1)\<close> drops only the
  last character, and the result is 299 letters followed by the ellipsis: 302 characters.
  The hard cut at \<open>280 - 3\<close> is not reached.
\<close>

theorem truncateToCompleteSentence_exceeds_limit:
  "truncateToCompleteSentence (replicate 300 (CHR ''a'')) = replicate 299 (CHR ''a'') @ ''...''
   \<and> length (truncateToCompleteSentence (replicate 300 (CHR ''a''))) = 302"
  by code_simp

text \<open>
  Two more inputs, on the other two paths: a period at index 280 gives 281 characters, and a
  space at index 280 gives 280 characters and the ellipsis.
\<close>

lemma truncate_period_at_limit:
  "length (truncateToCompleteSentence (replicate 280 (CHR ''a'') @ ''. bbb'')) = 281"
  by code_simp

lemma truncate_space_at_limit:
  "length (truncateToCompleteSentence (replicate 280 (CHR ''a'') @ '' bbb'')) = 283"
  by code_simp

subsection \<open>The per-user rate limit\<close>

lemma getOrZero_upd: "getOrZero (m(k \<mapsto> v)) k' = (if k' = k then v else getOrZero m k')"
  by (simp add: getOrZero_def)

lemma canReplyToUser_iff:
  "fst (canReplyToUser lims st w uid) \<longleftrightarrow>
     getOrZero (recentReplies st) uid < maxRepliesPerUser lims \<and>
     shd (clock w) - getOrZero (lastReplyTime st) uid \<ge> minTimeBetweenReplies lims"
  by (simp add: canReplyToUser_def Date_now_def Let_def)

lemma updateInteractionTracking_count:
  "getOrZero (recentReplies (fst (updateInteractionTracking st w uid cid))) u
     = getOrZero (recentReplies st) u + (if uid = u then 1 else 0)"
  by (simp add: updateInteractionTracking_def Let_def Date_now_def getOrZero_upd)

lemma recordReplies_count:
  "getOrZero (recentReplies (fst (recordReplies st w rs))) u
     = getOrZero (recentReplies st) u + int (count_list (map fst rs) u)"
proof (induction rs arbitrary: st w)
  case Nil
  then show ?case by simp
next
  case (Cons r rs)
  obtain uid cid where r: "r = (uid, cid)" by (cases r)
  obtain st' w' where u: "updateInteractionTracking st w uid cid = (st', w')" by fastforce
  have "getOrZero (recentReplies st') u
          = getOrZero (recentReplies st) u + (if uid = u then 1 else 0)"
    using updateInteractionTracking_count[of st w uid cid u] u by simp
  then show ?case using Cons.IH[of st' w'] r u by simp
qed

lemma updateInteractionTracking_time:
  "getOrZero (lastReplyTime (fst (updateInteractionTracking st w uid cid))) u
     = (if u = uid then shd (clock w) else getOrZero (lastReplyTime st) u)"
  by (simp add: updateInteractionTracking_def Let_def Date_now_def getOrZero_upd)

lemma updateInteractionTracking_clock:
  "clock (snd (updateInteractionTracking st w uid cid)) = stl (clock w)"
  by (simp add: updateInteractionTracking_def Let_def Date_now_def)

lemma recordReplies_append:
  "recordReplies st w (xs @ ys)
     = (case recordReplies st w xs of (st1, w1) \<Rightarrow> recordReplies st1 w1 ys)"
proof (induction xs arbitrary: st w)
  case Nil
  then show ?case by simp
next
  case (Cons r xs)
  obtain uid cid where r: "r = (uid, cid)" by (cases r)
  obtain st' w' where u: "updateInteractionTracking st w uid cid = (st', w')" by fastforce
  with Cons.IH[of st' w'] r show ?case by simp
qed

lemma recordReplies_clock:
  "clock (snd (recordReplies st w rs)) = sdrop (length rs) (clock w)"
proof (induction rs arbitrary: st w)
  case Nil
  then show ?case by simp
next
  case (Cons r rs)
  obtain uid cid where r: "r = (uid, cid)" by (cases r)
  obtain st' w' where u: "updateInteractionTracking st w uid cid = (st', w')" by fastforce
  have "clock w' = stl (clock w)" using updateInteractionTracking_clock[of st w uid cid] u by simp
  with Cons.IH[of st' w'] r u show ?case by simp
qed

lemma recordReplies_time_other:
  "uid \<notin> set (map fst rs) \<Longrightarrow>
     getOrZero (lastReplyTime (fst (recordReplies st w rs))) uid = getOrZero (lastReplyTime st) uid"
proof (induction rs arbitrary: st w)
  case Nil
  then show ?case by simp
next
  case (Cons r rs)
  obtain u cid where r: "r = (u, cid)" by (cases r)
  obtain st' w' where up: "updateInteractionTracking st w u cid = (st', w')" by fastforce
  from Cons.prems r have ne: "uid \<noteq> u" and rest: "uid \<notin> set (map fst rs)" by auto
  have "getOrZero (lastReplyTime st') uid = getOrZero (lastReplyTime st) uid"
    using updateInteractionTracking_time[of st w u cid uid] up ne by simp
  with Cons.IH[OF rest, of st' w'] r up show ?case by simp
qed

lemma recordReplies_last_time:
  assumes "uid \<notin> set (map fst later)"
  shows "getOrZero (lastReplyTime (fst (recordReplies st w (earlier @ (uid, cid) # later)))) uid
           = clock w !! length earlier"
proof -
  obtain st1 w1 where p: "recordReplies st w earlier = (st1, w1)" by fastforce
  obtain st2 w2 where u: "updateInteractionTracking st1 w1 uid cid = (st2, w2)" by fastforce
  have c1: "clock w1 = sdrop (length earlier) (clock w)"
    using recordReplies_clock[of st w earlier] p by simp
  have "getOrZero (lastReplyTime st2) uid = shd (clock w1)"
    using updateInteractionTracking_time[of st1 w1 uid cid uid] u by simp
  also have "\<dots> = clock w !! length earlier" by (simp add: c1)
  finally have t2: "getOrZero (lastReplyTime st2) uid = clock w !! length earlier" .
  have "recordReplies st w (earlier @ (uid, cid) # later) = recordReplies st2 w2 later"
    using p u by (simp add: recordReplies_append)
  with recordReplies_time_other[OF assms, of st2 w2] t2 show ?thesis by simp
qed

text \<open>
  Claim C5. \<^verbatim>\<open>canReplyToUser\<close> answers true exactly when the recorded reply count of the
  user is strictly below \<^verbatim>\<open>maxRepliesPerUser\<close> and the clock reading minus the last
  recorded reply time is at least \<^verbatim>\<open>minTimeBetweenReplies\<close> (an unrecorded count or time
  reads as zero). Every recorded reply to the user adds one to the count, whatever else is
  recorded in between, and once the count has reached the cap the answer is false at every
  later clock reading. The last recorded reply time of a user is the clock reading at which
  the latest reply to that user was recorded: after the replies \<open>earlier\<close>, a reply to the user and
  the replies \<open>later\<close> to other users, it is the reading number \<open>length earlier\<close>. Until
  \<^verbatim>\<open>minTimeBetweenReplies\<close> has passed since that reading the answer is false, also below
  the cap; from then on it is true as long as the count is below the cap.
\<close>

theorem canReplyToUser_count_and_recency:
  "(fst (canReplyToUser lims st w uid) \<longleftrightarrow>
      getOrZero (recentReplies st) uid < maxRepliesPerUser lims \<and>
      shd (clock w) - getOrZero (lastReplyTime st) uid \<ge> minTimeBetweenReplies lims)
   \<and> getOrZero (recentReplies (fst (recordReplies st w rs))) uid
       = getOrZero (recentReplies st) uid + int (count_list (map fst rs) uid)
   \<and> (maxRepliesPerUser lims \<le> getOrZero (recentReplies (fst (recordReplies st w rs))) uid
        \<longrightarrow> \<not> fst (canReplyToUser lims (fst (recordReplies st w rs)) w' uid))
   \<and> (uid \<notin> set (map fst later) \<longrightarrow>
        getOrZero (lastReplyTime (fst (recordReplies st w (earlier @ (uid, cid) # later)))) uid
          = clock w !! length earlier)
   \<and> (uid \<notin> set (map fst later) \<and>
        shd (clock w') - clock w !! length earlier < minTimeBetweenReplies lims \<longrightarrow>
        \<not> fst (canReplyToUser lims (fst (recordReplies st w (earlier @ (uid, cid) # later))) w' uid))
   \<and> (uid \<notin> set (map fst later) \<and>
        minTimeBetweenReplies lims \<le> shd (clock w') - clock w !! length earlier \<and>
        getOrZero (recentReplies st) uid
          + int (count_list (map fst (earlier @ (uid, cid) # later)) uid) < maxRepliesPerUser lims \<longrightarrow>
        fst (canReplyToUser lims (fst (recordReplies st w (earlier @ (uid, cid) # later))) w' uid))"
proof -
  let ?rs = "earlier @ (uid, cid) # later"
  have a: "fst (canReplyToUser lims st w uid) \<longleftrightarrow>
      getOrZero (recentReplies st) uid < maxRepliesPerUser lims \<and>
      shd (clock w) - getOrZero (lastReplyTime st) uid \<ge> minTimeBetweenReplies lims"
    by (rule canReplyToUser_iff)
  have b: "getOrZero (recentReplies (fst (recordReplies st w rs))) uid
       = getOrZero (recentReplies st) uid + int (count_list (map fst rs) uid)"
    by (rule recordReplies_count)
  have c: "maxRepliesPerUser lims \<le> getOrZero (recentReplies (fst (recordReplies st w rs))) uid
        \<longrightarrow> \<not> fst (canReplyToUser lims (fst (recordReplies st w rs)) w' uid)"
    using canReplyToUser_iff[of lims "fst (recordReplies st w rs)" w' uid] by simp
  have d: "uid \<notin> set (map fst later) \<longrightarrow>
        getOrZero (lastReplyTime (fst (recordReplies st w ?rs))) uid = clock w !! length earlier"
    using recordReplies_last_time[of uid later st w earlier cid] by blast
  have e: "uid \<notin> set (map fst later) \<and>
        shd (clock w') - clock w !! length earlier < minTimeBetweenReplies lims \<longrightarrow>
        \<not> fst (canReplyToUser lims (fst (recordReplies st w ?rs)) w' uid)"
    using d canReplyToUser_iff[of lims "fst (recordReplies st w ?rs)" w' uid] by auto
  have f: "uid \<notin> set (map fst later) \<and>
        minTimeBetweenReplies lims \<le> shd (clock w') - clock w !! length earlier \<and>
        getOrZero (recentReplies st) uid + int (count_list (map fst ?rs) uid)
          < maxRepliesPerUser lims \<longrightarrow>
        fst (canReplyToUser lims (fst (recordReplies st w ?rs)) w' uid)"
    using d canReplyToUser_iff[of lims "fst (recordReplies st w ?rs)" w' uid]
      recordReplies_count[of st w ?rs uid]
    by auto
  from a b c d e f show ?thesis by blast
qed

text \<open>
  Three replies are recorded, at the clock readings 1700000000000, 1700000060000 and
  1700000120000: to bob, to alice, to bob. The last reply time of alice is the second
  reading and her count is one. With the default limits (five replies, five minutes) she is
  refused one second after that reading and answered five minutes after it; with a cap of one
  reply she is refused a year later as well.
\<close>

theorem canReplyToUser_count_and_recency_witness:
  "getOrZero (lastReplyTime (fst (recordReplies freshState tickingWorld
       [(''bob'', ''c0''), (''alice'', ''c1''), (''bob'', ''c2'')]))) ''alice'' = 1700000060000
   \<and> getOrZero (recentReplies (fst (recordReplies freshState tickingWorld
       [(''bob'', ''c0''), (''alice'', ''c1''), (''bob'', ''c2'')]))) ''alice'' = 1
   \<and> \<not> fst (canReplyToUser defaultLimits
         (fst (recordReplies freshState tickingWorld
            [(''bob'', ''c0''), (''alice'', ''c1''), (''bob'', ''c2'')]))
         (exampleWorld\<lparr>clock := sconst 1700000061000\<rparr>) ''alice'')
   \<and> fst (canReplyToUser defaultLimits
         (fst (recordReplies freshState tickingWorld
            [(''bob'', ''c0''), (''alice'', ''c1''), (''bob'', ''c2'')]))
         (exampleWorld\<lparr>clock := sconst 1700000360000\<rparr>) ''alice'')
   \<and> \<not> fst (canReplyToUser (defaultLimits\<lparr>maxRepliesPerUser := 1\<rparr>)
         (fst (recordReplies freshState tickingWorld
            [(''bob'', ''c0''), (''alice'', ''c1''), (''bob'', ''c2'')]))
         (exampleWorld\<lparr>clock := sconst 1731536000000\<rparr>) ''alice'')"
proof -
  let ?rs = "[(''bob'', ''c0''), (''alice'', ''c1''), (''bob'', ''c2'')]"
  let ?st = "fst (recordReplies freshState tickingWorld ?rs)"
  have rs: "[(''bob'', ''c0'')] @ (''alice'', ''c1'') # [(''bob'', ''c2'')] = ?rs" by simp
  have other: "''alice'' \<notin> set (map fst [(''bob'', ''c2'')])" by simp
  have reading: "clock tickingWorld !! length [(''bob'', ''c0'')] = 1700000060000"
    by (simp add: tickingWorld_def)
  have c0: "getOrZero (recentReplies freshState) ''alice'' = 0"
    by (simp add: freshState_def getOrZero_def)
  note early = canReplyToUser_count_and_recency
    [where lims = defaultLimits and st = freshState and w = tickingWorld and uid = "''alice''"
       and cid = "''c1''" and earlier = "[(''bob'', ''c0'')]" and later = "[(''bob'', ''c2'')]"
       and rs = ?rs and w' = "exampleWorld\<lparr>clock := sconst 1700000061000\<rparr>"]
  note late = canReplyToUser_count_and_recency
    [where lims = defaultLimits and st = freshState and w = tickingWorld and uid = "''alice''"
       and cid = "''c1''" and earlier = "[(''bob'', ''c0'')]" and later = "[(''bob'', ''c2'')]"
       and rs = ?rs and w' = "exampleWorld\<lparr>clock := sconst 1700000360000\<rparr>"]
  note capped = canReplyToUser_count_and_recency
    [where lims = "defaultLimits\<lparr>maxRepliesPerUser := 1\<rparr>" and st = freshState
       and w = tickingWorld and uid = "''alice''" and rs = ?rs
       and w' = "exampleWorld\<lparr>clock := sconst 1731536000000\<rparr>"]
  from early other reading rs
  have t: "getOrZero (lastReplyTime ?st) ''alice'' = 1700000060000" by simp
  from early c0 have n: "getOrZero (recentReplies ?st) ''alice'' = 1" by simp
  from early other reading rs
  have blocked: "\<not> fst (canReplyToUser defaultLimits ?st
                     (exampleWorld\<lparr>clock := sconst 1700000061000\<rparr>) ''alice'')"
    by (simp add: defaultLimits_def exampleWorld_def)
  from late other reading rs c0
  have allowed: "fst (canReplyToUser defaultLimits ?st
                     (exampleWorld\<lparr>clock := sconst 1700000360000\<rparr>) ''alice'')"
    by (simp add: defaultLimits_def exampleWorld_def)
  from capped n
  have cap: "\<not> fst (canReplyToUser (defaultLimits\<lparr>maxRepliesPerUser := 1\<rparr>) ?st
                     (exampleWorld\<lparr>clock := sconst 1731536000000\<rparr>) ''alice'')"
    by simp
  from t n blocked allowed cap show ?thesis by simp
qed

subsection \<open>Template selection\<close>

lemma checkProbability_absent:
  "probability t = None \<Longrightarrow> checkProbability t w = (True, w)"
  by (simp add: checkProbability_def)

lemma checkProbability_zero:
  "probability t = Some 0 \<Longrightarrow> checkProbability t w = (True, w)"
  by (simp add: checkProbability_def)

lemma shuffleArray_pair:
  "fst (shuffleArray [a, b] w) = (if shd (randoms w) < 1 / 2 then [b, a] else [a, b])"
  by (simp add: Math_random_def)

lemma checkProbability_one:
  "probability t = Some 1 \<Longrightarrow> shd (randoms w) < 1 \<Longrightarrow> fst (checkProbability t w)"
  by (simp add: checkProbability_def Math_random_def)

text \<open>
  Claim C1. The claim is that a group of a template with probability 0 and a template with
  probability 1, neither with conditions nor on cooldown, always yields the second. In the code
  \<^verbatim>\<open>!template.probability\<close> is true for an absent probability and for the number 0 alike,
  so the template with probability 0 passes the trial without a draw (as
  \<open>checkProbability_zero\<close> shows), both templates are eligible, and the shuffle decides. When
  every draw is \<open>0.5\<close> the comparator is constantly zero, the stable sort keeps the order of
  the group, and the template with probability 0 is returned.
\<close>

theorem getTemplate_returns_probability_zero:
  "fst (getTemplate lib
     \<lparr>config = \<lparr>templates = [''general'' \<mapsto>
         [\<lparr>name = ''never'', conditions = None, probability = Some 0, template = ''A''\<rparr>,
          \<lparr>name = ''always'', conditions = None, probability = Some 1, template = ''B''\<rparr>]]\<rparr>,
      lastTemplateUse = []\<rparr>
     ''general'' JUndefined \<lparr>clock = sconst 1700000000000, randoms = sconst (1 / 2), logged = []\<rparr>)
   = Inr (Some \<lparr>name = ''never'', conditions = None, probability = Some 0, template = ''A''\<rparr>)"
  by (simp add: getTemplate_def isEligible_def isTemplateOnCooldown_def checkProbability_def
      Math_random_def Date_now_def trackTemplateUse_def Let_def)

subsection \<open>Conditions of the selected template\<close>

lemma set_insertRandom: "set (fst (insertRandom x ys w)) = insert x (set ys)"
proof (induction ys arbitrary: w)
  case Nil
  then show ?case by simp
next
  case (Cons y ys)
  obtain r w1 where m: "Math_random w = (r, w1)" by fastforce
  obtain zs w2 where i: "insertRandom x ys w1 = (zs, w2)" by fastforce
  from Cons.IH[of w1] i have "set zs = insert x (set ys)" by simp
  with m i show ?case by auto
qed

lemma set_shuffleArray: "set (fst (shuffleArray xs w)) = set xs"
proof (induction xs arbitrary: w)
  case Nil
  then show ?case by simp
next
  case (Cons x xs)
  obtain ys w1 where s: "shuffleArray xs w = (ys, w1)" by fastforce
  with Cons.IH[of w] have "set ys = set xs" by simp
  with s show ?case using set_insertRandom[of x ys w1] by simp
qed

lemma everyCondition_True:
  "everyCondition lib ctx cs = Inr True \<Longrightarrow> c \<in> set cs \<Longrightarrow> evaluateCondition lib c ctx = Inr True"
  by (induction cs) (auto split: sum.splits if_splits)

lemma isEligible_sound:
  "isEligible lib ctx tbl t w = (Inr True, w') \<Longrightarrow> conditions t = Some cs \<Longrightarrow>
     everyCondition lib ctx cs = Inr True"
  by (auto simp: isEligible_def Let_def split: prod.splits if_splits sum.splits)

lemma filterEligible_sound:
  "filterEligible lib ctx tbl ts w = (Inr el, w') \<Longrightarrow> t \<in> set el \<Longrightarrow>
     t \<in> set ts \<and> (\<exists>w1 w2. isEligible lib ctx tbl t w1 = (Inr True, w2))"
proof (induction ts arbitrary: w el w')
  case Nil
  then show ?case by simp
next
  case (Cons a ts)
  from Cons.prems(1) obtain keep w1 rest where
    a: "isEligible lib ctx tbl a w = (Inr keep, w1)" and
    r: "filterEligible lib ctx tbl ts w1 = (Inr rest, w')" and
    el: "el = (if keep then a # rest else rest)"
    by (auto split: prod.splits sum.splits)
  show ?case
  proof (cases "t \<in> set rest")
    case True
    with Cons.IH[OF r] show ?thesis by auto
  next
    case False
    with el Cons.prems(2) have "keep" "t = a" by (auto split: if_splits)
    with a show ?thesis by auto
  qed
qed

lemma getTemplate_sound:
  assumes "getTemplate lib mgr ty ctx w = (Inr (Some t), mgr', w')"
  shows "\<exists>ts w1 w2. templates (config mgr) ty = Some ts \<and> t \<in> set ts \<and>
           isEligible lib ctx (lastTemplateUse mgr) t w1 = (Inr True, w2)"
proof -
  from assms obtain ts where ts: "templates (config mgr) ty = Some ts"
    by (auto simp: getTemplate_def split: option.splits if_splits)
  from assms ts obtain el w1 where f: "filterEligible lib ctx (lastTemplateUse mgr) ts w = (Inr el, w1)"
    by (auto simp: getTemplate_def split: prod.splits sum.splits)
  from assms ts f obtain sh w2 rest where s: "shuffleArray el w1 = (sh, w2)" and sh: "sh = t # rest"
    by (auto simp: getTemplate_def Let_def split: prod.splits if_splits list.splits)
  have "set sh = set el" using set_shuffleArray[of el w1] s by simp
  with sh have "t \<in> set el" by auto
  with filterEligible_sound[OF f] ts show ?thesis by blast
qed


lemma evaluateCondition_unknown:
  "operator c \<notin> set [''contains'', ''equals'', ''greaterThan'', ''lessThan'', ''matches''] \<Longrightarrow> evaluateCondition lib c ctx = Inr False"
  by (simp add: evaluateCondition_def)

lemma evaluateCondition_operators:
  "(operator c = ''contains'' \<longrightarrow>
      evaluateCondition lib c ctx
        = Inr (includes_s (toStringJs lib (getFieldValue lib ctx (field c)))
                 (toStringJs lib (value_c c))))
   \<and> (operator c = ''equals'' \<longrightarrow>
      evaluateCondition lib c ctx = Inr (strictEquals (getFieldValue lib ctx (field c)) (value_c c)))
   \<and> (operator c = ''greaterThan'' \<longrightarrow>
      evaluateCondition lib c ctx
        = Inr (numLess (toNumberJs lib (value_c c)) (toNumberJs lib (getFieldValue lib ctx (field c)))))
   \<and> (operator c = ''lessThan'' \<longrightarrow>
      evaluateCondition lib c ctx
        = Inr (numLess (toNumberJs lib (getFieldValue lib ctx (field c))) (toNumberJs lib (value_c c))))
   \<and> (operator c = ''matches'' \<longrightarrow>
      evaluateCondition lib c ctx
        = (case regExpTest lib (toStringJs lib (value_c c))
                  (toStringJs lib (getFieldValue lib ctx (field c))) of
             None \<Rightarrow> Inl SyntaxError
           | Some b \<Rightarrow> Inr b))"
  by (simp add: evaluateCondition_def)

text \<open>
  Claim C6. Whatever the group, the context, the cooldown table, the clock and the random
  draws: when \<^verbatim>\<open>getTemplate\<close> returns a template that has a list of conditions, every
  condition of the list evaluates to true on the context, and so carries one of the five known
  operators. A condition with any other operator evaluates to false. The five operators
  evaluate as the claim describes them: \<open>contains\<close> is a substring test on the two coerced
  strings, \<open>equals\<close> is strict equality, \<open>greaterThan\<close> and \<open>lessThan\<close> compare the two
  coerced numbers, and \<open>matches\<close> tests the coerced string against the pattern.
\<close>

theorem getTemplate_conditions_satisfied:
  "(getTemplate lib mgr ty ctx w = (Inr (Some t), mgr', w') \<and> conditions t = Some cs \<and> c \<in> set cs
      \<longrightarrow> evaluateCondition lib c ctx = Inr True
          \<and> operator c \<in> set [''contains'', ''equals'', ''greaterThan'', ''lessThan'', ''matches''])
   \<and> (operator c' \<notin> set [''contains'', ''equals'', ''greaterThan'', ''lessThan'', ''matches'']
        \<longrightarrow> evaluateCondition lib c' ctx' = Inr False)
   \<and> (operator c' = ''contains'' \<longrightarrow>
        evaluateCondition lib c' ctx'
          = Inr (includes_s (toStringJs lib (getFieldValue lib ctx' (field c')))
                   (toStringJs lib (value_c c'))))
   \<and> (operator c' = ''equals'' \<longrightarrow>
        evaluateCondition lib c' ctx'
          = Inr (strictEquals (getFieldValue lib ctx' (field c')) (value_c c')))
   \<and> (operator c' = ''greaterThan'' \<longrightarrow>
        evaluateCondition lib c' ctx'
          = Inr (numLess (toNumberJs lib (value_c c'))
                   (toNumberJs lib (getFieldValue lib ctx' (field c')))))
   \<and> (operator c' = ''lessThan'' \<longrightarrow>
        evaluateCondition lib c' ctx'
          = Inr (numLess (toNumberJs lib (getFieldValue lib ctx' (field c')))
                   (toNumberJs lib (value_c c'))))
   \<and> (operator c' = ''matches'' \<longrightarrow>
        evaluateCondition lib c' ctx'
          = (case regExpTest lib (toStringJs lib (value_c c'))
                    (toStringJs lib (getFieldValue lib ctx' (field c'))) of
               None \<Rightarrow> Inl SyntaxError
             | Some b \<Rightarrow> Inr b))"
proof -
  have sel: "getTemplate lib mgr ty ctx w = (Inr (Some t), mgr', w') \<and> conditions t = Some cs
               \<and> c \<in> set cs
             \<longrightarrow> evaluateCondition lib c ctx = Inr True
                 \<and> operator c \<in> set [''contains'', ''equals'', ''greaterThan'', ''lessThan'', ''matches'']"
  proof (intro impI conjI)
    assume a: "getTemplate lib mgr ty ctx w = (Inr (Some t), mgr', w') \<and> conditions t = Some cs
                 \<and> c \<in> set cs"
    from getTemplate_sound[of lib mgr ty ctx w t mgr' w'] a obtain w1 w2 where
      "isEligible lib ctx (lastTemplateUse mgr) t w1 = (Inr True, w2)" by blast
    from isEligible_sound[OF this] a have "everyCondition lib ctx cs = Inr True" by simp
    from everyCondition_True[OF this] a show t: "evaluateCondition lib c ctx = Inr True" by simp
    show "operator c \<in> set [''contains'', ''equals'', ''greaterThan'', ''lessThan'', ''matches'']"
    proof (rule ccontr)
      assume "operator c \<notin> set [''contains'', ''equals'', ''greaterThan'', ''lessThan'', ''matches'']"
      from evaluateCondition_unknown[OF this, of lib ctx] t show False by simp
    qed
  qed
  have unk: "operator c' \<notin> set [''contains'', ''equals'', ''greaterThan'', ''lessThan'', ''matches'']
        \<longrightarrow> evaluateCondition lib c' ctx' = Inr False"
    using evaluateCondition_unknown[of c' lib ctx'] by blast
  from sel unk evaluateCondition_operators[of c' lib ctx'] show ?thesis by blast
qed

text \<open>
  A group with one template, which requires that the post contains \<open>gm\<close>: on a post that
  does, the template is selected and its condition holds; the same condition under the unknown
  operator \<open>startsWith\<close> is false.
\<close>

lemma gm_selected:
  "getTemplate exampleLib gmManager ''reply'' gmContext exampleWorld
     = (Inr (Some gmTemplate), gmManager\<lparr>lastTemplateUse := [(''greeting'', 1700000000000)]\<rparr>,
        exampleWorld\<lparr>clock := sconst 1700000000000\<rparr>)"
  apply (simp add: getTemplate_def gmManager_def gmTemplate_def gmCondition_def gmContext_def exampleWorld_def exampleLib_def
      isEligible_def isTemplateOnCooldown_def checkProbability_def evaluateCondition_def getFieldValue_def getProperty_def
      Math_random_def Date_now_def trackTemplateUse_def Let_def)
  done

theorem getTemplate_conditions_satisfied_witness:
  "fst (getTemplate exampleLib gmManager ''reply'' gmContext exampleWorld) = Inr (Some gmTemplate)
   \<and> evaluateCondition exampleLib gmCondition gmContext = Inr True
   \<and> evaluateCondition exampleLib (gmCondition\<lparr>operator := ''startsWith''\<rparr>) gmContext = Inr False"
proof -
  have c: "conditions gmTemplate = Some [gmCondition]" "gmCondition \<in> set [gmCondition]"
    by (simp_all add: gmTemplate_def)
  have u: "operator (gmCondition\<lparr>operator := ''startsWith''\<rparr>)
             \<notin> set [''contains'', ''equals'', ''greaterThan'', ''lessThan'', ''matches'']"
    by simp
  from getTemplate_conditions_satisfied
    [of exampleLib gmManager "''reply''" gmContext exampleWorld gmTemplate _ _ "[gmCondition]"
        gmCondition "gmCondition\<lparr>operator := ''startsWith''\<rparr>" gmContext]
    gm_selected c u
  show ?thesis by simp
qed


subsection \<open>The cooldown table is bounded\<close>

lemma foldl_delete_filter:
  "foldl (\<lambda>m e. AList.delete (fst e) m) tbl old = filter (\<lambda>e. fst e \<notin> fst ` set old) tbl"
proof (induction old arbitrary: tbl)
  case Nil
  then show ?case by simp
next
  case (Cons a old)
  have "AList.delete (fst a) tbl = filter (\<lambda>e. fst e \<noteq> fst a) tbl"
    by (simp add: AList.delete_eq case_prod_beta' eq_commute)
  then show ?case using Cons.IH[of "AList.delete (fst a) tbl"]
    by (simp add: conj_commute)
qed

lemma take_drop_sorted_le:
  assumes "sorted (map f xs)" "x \<in> set (take n xs)" "y \<in> set (drop n xs)"
  shows "f x \<le> f y"
proof -
  have "sorted (map f (take n xs) @ map f (drop n xs))"
    using assms(1) by (metis append_take_drop_id map_append)
  then show ?thesis using assms(2,3) by (auto simp: sorted_append)
qed

lemma evict_characterisation:
  assumes d: "distinct (map fst tbl1)"
    and srt_def: "srt = sort_key (\<lambda>e. - snd e) tbl1"
    and res_def: "res = foldl (\<lambda>m e. AList.delete (fst e) m) tbl1 (drop 50 srt)"
  shows "set res = set (take 50 srt)" and "distinct (map fst res)" and "length res = min 50 (length tbl1)"
proof -
  have dsrt: "distinct srt" using d by (simp add: srt_def distinct_map)
  have ssrt: "set srt = set tbl1" by (simp add: srt_def)
  have inj: "inj_on fst (set tbl1)" using d by (simp add: distinct_map)
  have res: "res = filter (\<lambda>e. fst e \<notin> fst ` set (drop 50 srt)) tbl1"
    by (simp add: res_def foldl_delete_filter)
  have sub: "set (drop 50 srt) \<subseteq> set tbl1" using ssrt set_drop_subset by fastforce
  have key: "\<And>e. e \<in> set tbl1 \<Longrightarrow> (fst e \<in> fst ` set (drop 50 srt)) = (e \<in> set (drop 50 srt))"
  proof -
    fix e assume e: "e \<in> set tbl1"
    show "(fst e \<in> fst ` set (drop 50 srt)) = (e \<in> set (drop 50 srt))"
    proof
      assume "fst e \<in> fst ` set (drop 50 srt)"
      then obtain e' where e': "e' \<in> set (drop 50 srt)" "fst e = fst e'" by auto
      with sub have "e' \<in> set tbl1" by auto
      with inj e e'(2) have "e = e'" by (simp add: inj_on_def)
      with e'(1) show "e \<in> set (drop 50 srt)" by simp
    next
      assume "e \<in> set (drop 50 srt)"
      then show "fst e \<in> fst ` set (drop 50 srt)" by simp
    qed
  qed
  have "set res = set tbl1 - set (drop 50 srt)" using key by (auto simp: res)
  also have "\<dots> = set (take 50 srt)"
  proof -
    have "set (take 50 srt) \<inter> set (drop 50 srt) = {}"
      using dsrt by (metis append_take_drop_id distinct_append)
    moreover have "set (take 50 srt) \<union> set (drop 50 srt) = set tbl1"
      using ssrt by (metis append_take_drop_id set_append)
    ultimately show ?thesis by blast
  qed
  finally show s: "set res = set (take 50 srt)" .
  show dr: "distinct (map fst res)" using d by (simp add: res distinct_map_filter)
  have "length res = card (set res)" using dr by (metis distinct_card distinct_map length_map)
  also have "\<dots> = card (set (take 50 srt))" by (simp add: s)
  also have "\<dots> = length (take 50 srt)" using dsrt by (simp add: distinct_card)
  also have "\<dots> = min 50 (length tbl1)" by (simp add: srt_def min.commute)
  finally show "length res = min 50 (length tbl1)" .
qed

text \<open>
  Claim C9. After every call of \<^verbatim>\<open>trackTemplateUse\<close> the table has at most 100 names
  (the names of a \<^verbatim>\<open>Map\<close> are distinct, and stay so). When the stamped table has more than
  100 names, exactly the 50 most recently used ones are kept: every evicted name was last used
  no later than every kept one. Otherwise the stamped table is kept whole.
\<close>

theorem trackTemplateUse_bounded:
  assumes d: "distinct (map fst tbl)"
  shows "(let tbl1 = AList.update n (shd (clock w)) tbl;
              tbl' = fst (trackTemplateUse n tbl w)
          in distinct (map fst tbl') \<and> length tbl' \<le> 100 \<and> set tbl' \<subseteq> set tbl1 \<and>
             (length tbl1 \<le> 100 \<longrightarrow> tbl' = tbl1) \<and>
             (length tbl1 > 100 \<longrightarrow> length tbl' = 50 \<and>
                (\<forall>kept \<in> set tbl'. \<forall>evicted \<in> set tbl1 - set tbl'. snd evicted \<le> snd kept)))"
proof -
  define tbl1 where "tbl1 = AList.update n (shd (clock w)) tbl"
  define srt where "srt = sort_key (\<lambda>e. - snd e) tbl1"
  define res where "res = foldl (\<lambda>m e. AList.delete (fst e) m) tbl1 (drop 50 srt)"
  have d1: "distinct (map fst tbl1)" using d by (simp add: tbl1_def distinct_update)
  have t: "fst (trackTemplateUse n tbl w) = (if length tbl1 > 100 then res else tbl1)"
    by (simp add: trackTemplateUse_def Date_now_def Let_def tbl1_def res_def srt_def)
  note ev = evict_characterisation[OF d1 srt_def res_def]
  have ord: "\<forall>kept \<in> set res. \<forall>evicted \<in> set tbl1 - set res. snd evicted \<le> snd kept"
  proof (intro ballI)
    fix kept evicted assume k: "kept \<in> set res" and e: "evicted \<in> set tbl1 - set res"
    have "set tbl1 = set (take 50 srt) \<union> set (drop 50 srt)"
      by (metis append_take_drop_id set_append set_sort srt_def)
    with e ev(1) have e': "evicted \<in> set (drop 50 srt)" by auto
    have "sorted (map (\<lambda>e. - snd e) srt)" by (simp add: srt_def)
    from take_drop_sorted_le[OF this _ e', of kept] k ev(1) show "snd evicted \<le> snd kept" by simp
  qed
  have sub: "set res \<subseteq> set tbl1" using ev(1) by (metis set_sort set_take_subset srt_def)
  show ?thesis
    unfolding Let_def tbl1_def[symmetric] t
    using d1 ev(2,3) ord sub by auto
qed


lemma fullTable_distinct: "distinct (map fst fullTable)"
proof -
  have "inj_on (\<lambda>i. replicate i (CHR ''t'')) (set [1..<101])"
    by (rule inj_onI) (metis length_replicate)
  then show ?thesis by (simp add: fullTable_def comp_def distinct_map)
qed

lemma fullTable_fresh: "''fresh'' \<notin> fst ` set fullTable"
proof
  assume "''fresh'' \<in> fst ` set fullTable"
  then obtain i where "''fresh'' = replicate i (CHR ''t'')" by (auto simp: fullTable_def)
  then have "set ''fresh'' \<subseteq> {CHR ''t''}" by (metis set_replicate_conv_if empty_subsetI subset_refl)
  then show False by simp
qed

lemma fullTable_updated: "length (AList.update ''fresh'' (shd (clock exampleWorld)) fullTable) = 101"
proof -
  have "map fst (AList.update ''fresh'' (shd (clock exampleWorld)) fullTable)
          = map fst fullTable @ [''fresh'']"
    using fullTable_fresh by (simp add: update_keys)
  then have "length (map fst (AList.update ''fresh'' (shd (clock exampleWorld)) fullTable))
          = Suc (length fullTable)"
    by simp
  then show ?thesis by (simp add: fullTable_def)
qed

text \<open>
  Stamping a new name into a table of one hundred names makes 101, and 50 remain.
\<close>

theorem trackTemplateUse_bounded_witness:
  "distinct (map fst fullTable)
   \<and> length (AList.update ''fresh'' (shd (clock exampleWorld)) fullTable) = 101
   \<and> length (fst (trackTemplateUse ''fresh'' fullTable exampleWorld)) = 50"
  using trackTemplateUse_bounded[OF fullTable_distinct, of "''fresh''" exampleWorld]
    fullTable_distinct fullTable_updated
  by (simp add: Let_def)



subsection \<open>The high-water mark\<close>

lemma updateInteractionTracking_mark:
  "lastCheckedTweetId (fst (updateInteractionTracking st w uid cid)) = lastCheckedTweetId st"
  by (simp add: updateInteractionTracking_def Let_def Date_now_def)

lemma processSingleTweet_mark:
  "lastCheckedTweetId (fst (snd (processSingleTweet env st w tweet))) = lastCheckedTweetId st"
proof -
  have "\<And>w1. lastCheckedTweetId (fst (updateInteractionTracking st w1 (userId tweet) (conversationId tweet)))
           = lastCheckedTweetId st"
    by (rule updateInteractionTracking_mark)
  then show ?thesis
    by (auto simp: processSingleTweet_def Let_def split: option.splits sum.splits prod.splits)
qed

lemma processTweetCandidate_outcome:
  assumes newer: "isNewerThanMark st tweet = Inr True"
    and adm: "shouldProcessTweet lims st w tweet = (admitted, w1)"
    and res: "processTweetCandidate env lims st w tweet = (err, st', w')"
  shows "(\<not> admitted \<longrightarrow> err = None \<and> st' = st \<and> w' = w1)
       \<and> (admitted \<and> err = None \<longrightarrow>
            (\<exists>n. BigInt (id_tw tweet) = Inr n \<and> lastCheckedTweetId st' = Some n))
       \<and> (admitted \<and> err \<noteq> None \<longrightarrow> lastCheckedTweetId st' = lastCheckedTweetId st)"
proof (cases admitted)
  case False
  with newer adm res show ?thesis by (simp add: processTweetCandidate_def)
next
  case True
  obtain e1 st1 w2 where p: "processSingleTweet env st w1 tweet = (e1, st1, w2)"
    by (cases "processSingleTweet env st w1 tweet") auto
  have m: "lastCheckedTweetId st1 = lastCheckedTweetId st"
    using processSingleTweet_mark[of env st w1 tweet] p by simp
  show ?thesis
  proof (cases e1)
    case (Some e)
    with True newer adm res p m show ?thesis by (auto simp: processTweetCandidate_def)
  next
    case None
    with True newer adm res p m show ?thesis
      by (cases "BigInt (id_tw tweet)") (auto simp: processTweetCandidate_def)
  qed
qed



text \<open>
  Claim C2 as it is stated fails. The mark is 1000 and the mention 1001 is newer. The user has
  already had five replies, or (second case) the draw \<open>0.5\<close> exceeds a reply probability of
  \<open>0.25\<close>: \<^verbatim>\<open>shouldProcessTweet\<close> rejects the mention, \<^verbatim>\<open>processTweetCandidate\<close>
  returns at once, and the mark is still 1000.
\<close>

theorem rejected_candidate_keeps_mark:
  "isNewerThanMark (freshState\<lparr>lastCheckedTweetId := Some 1000\<rparr>) (tweetOf ''1001'' ''bob'' None)
     = Inr True
   \<and> \<not> fst (shouldProcessTweet defaultLimits
          (freshState\<lparr>lastCheckedTweetId := Some 1000, recentReplies := [''bob'' \<mapsto> 5]\<rparr>)
          exampleWorld (tweetOf ''1001'' ''bob'' None))
   \<and> lastCheckedTweetId (fst (snd (processTweetCandidate exampleEnv defaultLimits
          (freshState\<lparr>lastCheckedTweetId := Some 1000, recentReplies := [''bob'' \<mapsto> 5]\<rparr>)
          exampleWorld (tweetOf ''1001'' ''bob'' None)))) = Some 1000
   \<and> \<not> fst (shouldProcessTweet (defaultLimits\<lparr>replyProbability := 1 / 4\<rparr>)
          (freshState\<lparr>lastCheckedTweetId := Some 1000\<rparr>)
          exampleWorld (tweetOf ''1001'' ''bob'' None))
   \<and> lastCheckedTweetId (fst (snd (processTweetCandidate exampleEnv
          (defaultLimits\<lparr>replyProbability := 1 / 4\<rparr>)
          (freshState\<lparr>lastCheckedTweetId := Some 1000\<rparr>)
          exampleWorld (tweetOf ''1001'' ''bob'' None)))) = Some 1000"
  by (simp add: processTweetCandidate_def isNewerThanMark_def freshState_def tweetOf_def
      shouldProcessTweet_def canReplyToUser_def canReplyInThread_def getOrZero_def
      defaultLimits_def exampleWorld_def Date_now_def Math_random_def writeLog_def
      BigInt_examples Let_def)

text \<open>
  Claim C2, amended. For a candidate that is newer than the mark (or when the mark is absent or
  zero): if the rate limits or the probability trial reject it, nothing is thrown and the
  state, the mark included, is unchanged; if it is admitted and its processing completes
  without throwing, the mark becomes the number of its identifier; if it is admitted and
  something is thrown, the mark is unchanged.
\<close>

theorem processTweetCandidate_mark:
  "isNewerThanMark st tweet = Inr True \<longrightarrow>
     (\<not> fst (shouldProcessTweet lims st w tweet) \<longrightarrow>
        fst (processTweetCandidate env lims st w tweet) = None \<and>
        fst (snd (processTweetCandidate env lims st w tweet)) = st)
     \<and> (fst (shouldProcessTweet lims st w tweet) \<and>
          fst (processTweetCandidate env lims st w tweet) = None \<longrightarrow>
        (\<exists>n. BigInt (id_tw tweet) = Inr n \<and>
             lastCheckedTweetId (fst (snd (processTweetCandidate env lims st w tweet))) = Some n))
     \<and> (fst (shouldProcessTweet lims st w tweet) \<and>
          fst (processTweetCandidate env lims st w tweet) \<noteq> None \<longrightarrow>
        lastCheckedTweetId (fst (snd (processTweetCandidate env lims st w tweet)))
          = lastCheckedTweetId st)"
proof
  assume newer: "isNewerThanMark st tweet = Inr True"
  obtain admitted w1 where adm: "shouldProcessTweet lims st w tweet = (admitted, w1)"
    by (cases "shouldProcessTweet lims st w tweet") auto
  obtain err st' w' where res: "processTweetCandidate env lims st w tweet = (err, st', w')"
    by (cases "processTweetCandidate env lims st w tweet") auto
  from processTweetCandidate_outcome[OF newer adm res] adm res
  show "(\<not> fst (shouldProcessTweet lims st w tweet) \<longrightarrow>
        fst (processTweetCandidate env lims st w tweet) = None \<and>
        fst (snd (processTweetCandidate env lims st w tweet)) = st)
     \<and> (fst (shouldProcessTweet lims st w tweet) \<and>
          fst (processTweetCandidate env lims st w tweet) = None \<longrightarrow>
        (\<exists>n. BigInt (id_tw tweet) = Inr n \<and>
             lastCheckedTweetId (fst (snd (processTweetCandidate env lims st w tweet))) = Some n))
     \<and> (fst (shouldProcessTweet lims st w tweet) \<and>
          fst (processTweetCandidate env lims st w tweet) \<noteq> None \<longrightarrow>
        lastCheckedTweetId (fst (snd (processTweetCandidate env lims st w tweet)))
          = lastCheckedTweetId st)"
    by simp
qed

text \<open>
  With the default limits the mention 1001 is admitted and answered, and the mark moves from
  1000 to 1001.
\<close>

theorem processTweetCandidate_mark_witness:
  "isNewerThanMark (freshState\<lparr>lastCheckedTweetId := Some 1000\<rparr>) (tweetOf ''1001'' ''bob'' None)
     = Inr True
   \<and> fst (shouldProcessTweet defaultLimits (freshState\<lparr>lastCheckedTweetId := Some 1000\<rparr>)
          exampleWorld (tweetOf ''1001'' ''bob'' None))
   \<and> fst (processTweetCandidate exampleEnv defaultLimits
          (freshState\<lparr>lastCheckedTweetId := Some 1000\<rparr>) exampleWorld
          (tweetOf ''1001'' ''bob'' None)) = None
   \<and> lastCheckedTweetId (fst (snd (processTweetCandidate exampleEnv defaultLimits
          (freshState\<lparr>lastCheckedTweetId := Some 1000\<rparr>) exampleWorld
          (tweetOf ''1001'' ''bob'' None)))) = Some 1001"
proof -
  have n: "isNewerThanMark (freshState\<lparr>lastCheckedTweetId := Some 1000\<rparr>)
             (tweetOf ''1001'' ''bob'' None) = Inr True"
    by (simp add: isNewerThanMark_def freshState_def tweetOf_def BigInt_examples)
  have a: "fst (shouldProcessTweet defaultLimits (freshState\<lparr>lastCheckedTweetId := Some 1000\<rparr>)
          exampleWorld (tweetOf ''1001'' ''bob'' None))"
    by (simp add: shouldProcessTweet_def canReplyToUser_def canReplyInThread_def getOrZero_def
        freshState_def tweetOf_def defaultLimits_def exampleWorld_def Date_now_def
        Math_random_def Let_def)
  have e: "fst (processTweetCandidate exampleEnv defaultLimits
          (freshState\<lparr>lastCheckedTweetId := Some 1000\<rparr>) exampleWorld
          (tweetOf ''1001'' ''bob'' None)) = None"
    by (simp add: processTweetCandidate_def isNewerThanMark_def freshState_def tweetOf_def
        shouldProcessTweet_def canReplyToUser_def canReplyInThread_def getOrZero_def
        defaultLimits_def exampleWorld_def exampleEnv_def Date_now_def Math_random_def
        writeLog_def processSingleTweet_def handleTweet_def updateInteractionTracking_def
        BigInt_examples Let_def)
  have b: "BigInt (id_tw (tweetOf ''1001'' ''bob'' None)) = Inr 1001"
    by (simp add: tweetOf_def BigInt_examples)
  from processTweetCandidate_mark
    [of "freshState\<lparr>lastCheckedTweetId := Some 1000\<rparr>" "tweetOf ''1001'' ''bob'' None"
        defaultLimits exampleWorld exampleEnv]
    n a e b
  show ?thesis by simp
qed

subsection \<open>Errors in one check cycle\<close>

lemma handleTwitterInteractions_no_throw:
  "fst (handleTwitterInteractions env lims st w) = None"
  by (simp add: handleTwitterInteractions_def Let_def split: sum.splits prod.splits option.splits)

lemma runCycles_all:
  "fst (runCycles envs lims st w) = None \<and> fst (snd (runCycles envs lims st w)) = length envs"
proof (induction envs arbitrary: st w)
  case Nil
  then show ?case by simp
next
  case (Cons env envs)
  obtain st1 w1 where h: "handleTwitterInteractions env lims st w = (None, st1, w1)"
    using handleTwitterInteractions_no_throw[of env lims st w]
    by (cases "handleTwitterInteractions env lims st w") auto
  obtain err n st2 w2 where r: "runCycles envs lims st1 w1 = (err, n, st2, w2)"
    by (cases "runCycles envs lims st1 w1") auto
  with Cons.IH[of st1 w1] h show ?case by simp
qed

lemma processSingleTweet_generation_contained:
  "ensureConnection env tweet = None \<Longrightarrow> buildConversationThreadUtil env tweet = Inr th \<Longrightarrow>
     fst (processSingleTweet env st w tweet) = None"
  by (simp add: processSingleTweet_def Let_def split: prod.splits)

lemma processSingleTweet_setup_throws:
  "ensureConnection env tweet = Some e \<or>
   (ensureConnection env tweet = None \<and> buildConversationThreadUtil env tweet = Inl e) \<Longrightarrow>
     processSingleTweet env st w tweet = (Some e, st, writeLog (LogProcessing (id_tw tweet)) w)"
  by (auto simp: processSingleTweet_def Let_def)

lemma handleTwitterInteractions_logs:
  assumes "fetchAndFilterTweets env = Inr refs"
    and "processCandidates env lims st (writeLog LogChecking w) (map (heap env) refs) = (Some e, st1, w1)"
  shows "handleTwitterInteractions env lims st w = (None, st1, writeLog (LogError e) w1)"
  using assms by (simp add: handleTwitterInteractions_def Let_def)


lemma processCandidates_append:
  "processCandidates env lims st w (pre @ ts) =
     (case processCandidates env lims st w pre of
        (Some e, st1, w1) \<Rightarrow> (Some e, st1, w1)
      | (None, st1, w1) \<Rightarrow> processCandidates env lims st1 w1 ts)"
  by (induction pre arbitrary: st w) (auto split: prod.splits option.splits)


text \<open>
  Claim C3 as it is stated fails. The batch is the two mentions 1001 and 1002; setting up the
  connection for 1001 throws. The only \<^verbatim>\<open>catch\<close> on the way is the one of the whole cycle,
  so the error is logged there and the mention 1002 is never processed in this cycle. With
  collaborators that succeed, both mentions are processed.
\<close>

theorem candidate_error_aborts_batch:
  "fetchAndFilterTweets failingEnv = Inr [1, 2]
   \<and> logged (snd (snd (handleTwitterInteractions failingEnv defaultLimits freshState exampleWorld)))
       = [LogChecking, LogProcessing ''1001'', LogError ExternalError]
   \<and> logged (snd (snd (handleTwitterInteractions exampleEnv defaultLimits freshState exampleWorld)))
       = [LogChecking, LogProcessing ''1001'', LogProcessing ''1002'', LogFinished]"
  by (simp add: fetchAndFilterTweets_def failingEnv_def exampleEnv_def newSet_def sortBy_def
      tweetOf_def handleTwitterInteractions_def processTweetCandidate_def isNewerThanMark_def
      freshState_def shouldProcessTweet_def canReplyToUser_def canReplyInThread_def
      getOrZero_def defaultLimits_def exampleWorld_def Date_now_def Math_random_def
      writeLog_def processSingleTweet_def handleTweet_def updateInteractionTracking_def
      BigInt_examples Let_def)

text \<open>
  Claim C3, amended. An error thrown while a candidate is processed (by the set-up of its
  context or by the reconstruction of its thread) leaves \<^verbatim>\<open>processSingleTweet\<close> and the
  loop over the batch: the candidates after it are not processed in this cycle. The cycle
  itself catches the error and logs it, so \<^verbatim>\<open>handleTwitterInteractions\<close> never throws, and
  the scheduler runs every following cycle. An error of the generation is caught inside
  \<^verbatim>\<open>handleTweet\<close>: when set-up and reconstruction succeed, \<^verbatim>\<open>processSingleTweet\<close> does
  not throw.
\<close>

theorem candidate_error_caught_by_cycle:
  "(ensureConnection env tweet = Some e \<or>
      (ensureConnection env tweet = None \<and> buildConversationThreadUtil env tweet = Inl e)
      \<longrightarrow> processSingleTweet env st w tweet
            = (Some e, st, writeLog (LogProcessing (id_tw tweet)) w))
   \<and> (processCandidates env lims st w pre = (None, st1, w1) \<and>
        processTweetCandidate env lims st1 w1 tweet = (Some e, st2, w2)
      \<longrightarrow> processCandidates env lims st w (pre @ tweet # rest) = (Some e, st2, w2))
   \<and> (fetchAndFilterTweets env = Inr refs \<and>
        processCandidates env lims st (writeLog LogChecking w) (map (heap env) refs)
          = (Some e, st2, w2)
      \<longrightarrow> handleTwitterInteractions env lims st w = (None, st2, writeLog (LogError e) w2))
   \<and> fst (handleTwitterInteractions env lims st w) = None
   \<and> fst (runCycles envs lims st w) = None
   \<and> fst (snd (runCycles envs lims st w)) = length envs
   \<and> (ensureConnection env tweet = None \<and> buildConversationThreadUtil env tweet = Inr th
      \<longrightarrow> fst (processSingleTweet env st w tweet) = None)"
proof -
  have a: "ensureConnection env tweet = Some e \<or>
      (ensureConnection env tweet = None \<and> buildConversationThreadUtil env tweet = Inl e)
      \<longrightarrow> processSingleTweet env st w tweet
            = (Some e, st, writeLog (LogProcessing (id_tw tweet)) w)"
    using processSingleTweet_setup_throws[of env tweet e st w] by blast
  have b: "processCandidates env lims st w pre = (None, st1, w1) \<and>
        processTweetCandidate env lims st1 w1 tweet = (Some e, st2, w2)
      \<longrightarrow> processCandidates env lims st w (pre @ tweet # rest) = (Some e, st2, w2)"
    by (simp add: processCandidates_append)
  have c: "fetchAndFilterTweets env = Inr refs \<and>
        processCandidates env lims st (writeLog LogChecking w) (map (heap env) refs)
          = (Some e, st2, w2)
      \<longrightarrow> handleTwitterInteractions env lims st w = (None, st2, writeLog (LogError e) w2)"
    using handleTwitterInteractions_logs[of env refs lims st w e st2 w2] by blast
  have d: "ensureConnection env tweet = None \<and> buildConversationThreadUtil env tweet = Inr th
      \<longrightarrow> fst (processSingleTweet env st w tweet) = None"
    using processSingleTweet_generation_contained[of env tweet th st w] by blast
  from a b c d handleTwitterInteractions_no_throw[of env lims st w] runCycles_all[of envs lims st w]
  show ?thesis by blast
qed

text \<open>
  The failing collaborators again: the set-up for 1001 throws, the batch ends there, the cycle
  logs the error and does not throw, and three cycles in a row all run. When the generation
  throws instead, \<^verbatim>\<open>processSingleTweet\<close> does not.
\<close>

theorem candidate_error_caught_by_cycle_witness:
  "ensureConnection failingEnv (tweetOf ''1001'' ''bob'' None) = Some ExternalError
   \<and> processCandidates failingEnv defaultLimits freshState (writeLog LogChecking exampleWorld) []
       = (None, freshState, writeLog LogChecking exampleWorld)
   \<and> processCandidates failingEnv defaultLimits freshState (writeLog LogChecking exampleWorld)
        ([] @ tweetOf ''1001'' ''bob'' None # [tweetOf ''1002'' ''carol'' None])
       = (Some ExternalError, freshState,
          writeLog (LogProcessing ''1001'') (writeLog LogChecking exampleWorld))
   \<and> handleTwitterInteractions failingEnv defaultLimits freshState exampleWorld
       = (None, freshState,
          writeLog (LogError ExternalError)
            (writeLog (LogProcessing ''1001'') (writeLog LogChecking exampleWorld)))
   \<and> fst (snd (runCycles [failingEnv, failingEnv, exampleEnv] defaultLimits freshState exampleWorld))
       = 3
   \<and> fst (processSingleTweet (exampleEnv\<lparr>generateTweetContent := (\<lambda>t th. Inl ExternalError)\<rparr>)
            freshState exampleWorld (tweetOf ''1001'' ''bob'' None)) = None"
proof -
  let ?t1 = "tweetOf ''1001'' ''bob'' None"
  let ?w0 = "writeLog LogChecking exampleWorld"
  let ?w1 = "writeLog (LogProcessing ''1001'') ?w0"
  let ?genEnv = "exampleEnv\<lparr>generateTweetContent := (\<lambda>t th. Inl ExternalError)\<rparr>"
  have ec: "ensureConnection failingEnv ?t1 = Some ExternalError"
    by (simp add: failingEnv_def tweetOf_def)
  have pre: "processCandidates failingEnv defaultLimits freshState ?w0 [] = (None, freshState, ?w0)"
    by simp
  have sh: "shouldProcessTweet defaultLimits freshState ?w0 ?t1 = (True, ?w0)"
    by (simp add: shouldProcessTweet_def canReplyToUser_def canReplyInThread_def getOrZero_def
        freshState_def tweetOf_def defaultLimits_def exampleWorld_def Date_now_def
        Math_random_def writeLog_def Let_def)
  have idw: "writeLog (LogProcessing (id_tw ?t1)) ?w0 = ?w1" by (simp add: tweetOf_def)
  have cand: "processTweetCandidate failingEnv defaultLimits freshState ?w0 ?t1
                = (Some ExternalError, freshState, ?w1)"
  proof -
    from candidate_error_caught_by_cycle
      [where env = failingEnv and tweet = ?t1 and e = ExternalError and st = freshState
         and w = ?w0] ec idw
    have "processSingleTweet failingEnv freshState ?w0 ?t1 = (Some ExternalError, freshState, ?w1)"
      by simp
    with sh show ?thesis
      by (simp add: processTweetCandidate_def isNewerThanMark_def freshState_def)
  qed
  have refs: "fetchAndFilterTweets failingEnv = Inr [1, 2]"
    by (simp add: fetchAndFilterTweets_def failingEnv_def exampleEnv_def newSet_def sortBy_def
        tweetOf_def)
  have hp: "map (heap failingEnv) [1, 2] = [] @ ?t1 # [tweetOf ''1002'' ''carol'' None]"
    by (simp add: failingEnv_def exampleEnv_def)
  have gen: "ensureConnection ?genEnv ?t1 = None \<and> buildConversationThreadUtil ?genEnv ?t1 = Inr [?t1]"
    by (simp add: exampleEnv_def)
  from candidate_error_caught_by_cycle
    [where env = failingEnv and tweet = ?t1 and e = ExternalError and lims = defaultLimits
       and st = freshState and w = ?w0 and pre = "[]" and ?st1.0 = freshState and ?w1.0 = ?w0
       and ?st2.0 = freshState and ?w2.0 = ?w1 and rest = "[tweetOf ''1002'' ''carol'' None]"]
    pre cand
  have batch: "processCandidates failingEnv defaultLimits freshState ?w0
                 ([] @ ?t1 # [tweetOf ''1002'' ''carol'' None]) = (Some ExternalError, freshState, ?w1)"
    by blast
  from batch hp
  have batch': "processCandidates failingEnv defaultLimits freshState ?w0
                  (map (heap failingEnv) [1, 2]) = (Some ExternalError, freshState, ?w1)"
    by simp
  note cycle = candidate_error_caught_by_cycle
    [where env = failingEnv and e = ExternalError and lims = defaultLimits
       and st = freshState and w = exampleWorld and refs = "[1, 2]"
       and ?st2.0 = freshState and ?w2.0 = ?w1
       and envs = "[failingEnv, failingEnv, exampleEnv]"]
  from cycle refs batch'
  have cyc: "handleTwitterInteractions failingEnv defaultLimits freshState exampleWorld
               = (None, freshState, writeLog (LogError ExternalError) ?w1)"
    by blast
  from cycle
  have "fst (snd (runCycles [failingEnv, failingEnv, exampleEnv] defaultLimits freshState
                exampleWorld)) = length [failingEnv, failingEnv, exampleEnv]"
    by blast
  then have run: "fst (snd (runCycles [failingEnv, failingEnv, exampleEnv] defaultLimits freshState
                exampleWorld)) = 3"
    by simp
  from candidate_error_caught_by_cycle
    [where env = ?genEnv and tweet = ?t1 and st = freshState and w = exampleWorld
       and th = "[?t1]"] gen
  have g: "fst (processSingleTweet ?genEnv freshState exampleWorld ?t1) = None"
    by blast
  from ec pre batch cyc run g show ?thesis by simp
qed

subsection \<open>The order of the candidates\<close>

lemma set_newSet: "set (newSet xs) = set xs"
  by (simp add: newSet_def)

lemma distinct_newSet: "distinct (newSet xs)"
  by (simp add: newSet_def)

lemma set_insertBy: "set (insertBy cmp x ys) = insert x (set ys)"
  by (induction ys) auto

lemma set_sortBy: "set (sortBy cmp xs) = set xs"
  by (induction xs) (auto simp: sortBy_def set_insertBy)

lemma distinct_insertBy: "distinct (insertBy cmp x ys) = (x \<notin> set ys \<and> distinct ys)"
  by (induction ys) (auto simp: set_insertBy)

lemma distinct_sortBy: "distinct (sortBy cmp xs) = distinct xs"
proof (induction xs)
  case Nil
  then show ?case by (simp add: sortBy_def)
next
  case (Cons x xs)
  have "sortBy cmp (x # xs) = insertBy cmp x (sortBy cmp xs)" by (simp add: sortBy_def)
  with Cons show ?case by (simp add: distinct_insertBy set_sortBy)
qed

lemma localeCompare_total: "localeCompare a b \<le> 0 \<or> localeCompare b a \<le> 0"
  by (induction a b rule: localeCompare.induct) auto

lemma localeCompare_trans:
  "localeCompare a b \<le> 0 \<Longrightarrow> localeCompare b c \<le> 0 \<Longrightarrow> localeCompare a c \<le> 0"
proof (induction a b arbitrary: c rule: localeCompare.induct)
  case 1
  then show ?case by simp
next
  case (2 y ys)
  then show ?case by (cases c) auto
next
  case (3 x xs)
  then show ?case by simp
next
  case (4 x xs y ys)
  show ?case
  proof (cases c)
    case Nil
    with 4 show ?thesis by simp
  next
    case (Cons z zs)
    with 4 show ?thesis by (auto split: if_splits)
  qed
qed

lemma sorted_insertBy:
  assumes tot: "\<And>a b. cmp a b \<le> 0 \<or> cmp b a \<le> 0"
    and tr: "\<And>a b c. cmp a b \<le> 0 \<Longrightarrow> cmp b c \<le> 0 \<Longrightarrow> cmp a c \<le> 0"
  shows "sorted_wrt (\<lambda>a b. cmp a b \<le> 0) ys \<Longrightarrow> sorted_wrt (\<lambda>a b. cmp a b \<le> 0) (insertBy cmp x ys)"
proof (induction ys)
  case Nil
  then show ?case by simp
next
  case (Cons y ys)
  show ?case
  proof (cases "cmp x y \<le> 0")
    case True
    with Cons.prems tr show ?thesis by auto
  next
    case False
    with tot have "cmp y x \<le> 0" by blast
    with False Cons show ?thesis by (auto simp: set_insertBy)
  qed
qed

lemma sorted_sortBy:
  assumes tot: "\<And>a b. cmp a b \<le> 0 \<or> cmp b a \<le> 0"
    and tr: "\<And>a b c. cmp a b \<le> 0 \<Longrightarrow> cmp b c \<le> 0 \<Longrightarrow> cmp a c \<le> 0"
  shows "sorted_wrt (\<lambda>a b. cmp a b \<le> 0) (sortBy cmp xs)"
proof (induction xs)
  case Nil
  then show ?case by (simp add: sortBy_def)
next
  case (Cons x xs)
  have "sortBy cmp (x # xs) = insertBy cmp x (sortBy cmp xs)" by (simp add: sortBy_def)
  with sorted_insertBy[of cmp, OF tot tr Cons] show ?case by simp
qed

lemma fetchAndFilterTweets_result:
  assumes "fetchSearchTweets env = Inr refs"
  shows "\<exists>res. fetchAndFilterTweets env = Inr res \<and> distinct res \<and>
           set res = {r \<in> set refs. userId (heap env r) \<noteq> profileId env} \<and>
           sorted_wrt (\<lambda>a b. localeCompare (id_tw (heap env a)) (id_tw (heap env b)) \<le> 0) res"
proof -
  let ?cmp = "\<lambda>a b. localeCompare (id_tw (heap env a)) (id_tw (heap env b))"
  let ?res = "filter (\<lambda>r. userId (heap env r) \<noteq> profileId env) (sortBy ?cmp (newSet refs))"
  have r: "fetchAndFilterTweets env = Inr ?res" using assms by (simp add: fetchAndFilterTweets_def)
  have s: "sorted_wrt (\<lambda>a b. ?cmp a b \<le> 0) (sortBy ?cmp (newSet refs))"
  proof (rule sorted_sortBy)
    fix a b show "?cmp a b \<le> 0 \<or> ?cmp b a \<le> 0" by (rule localeCompare_total)
  next
    fix a b c assume "?cmp a b \<le> 0" "?cmp b c \<le> 0"
    then show "?cmp a c \<le> 0" by (rule localeCompare_trans)
  qed
  have "sorted_wrt (\<lambda>a b. ?cmp a b \<le> 0) ?res" using s by (rule sorted_wrt_filter)
  moreover have "distinct ?res" by (simp add: distinct_sortBy distinct_newSet)
  moreover have "set ?res = {r \<in> set refs. userId (heap env r) \<noteq> profileId env}"
    by (auto simp: set_sortBy set_newSet)
  ultimately show ?thesis using r by blast
qed

lemma digitOf_code: "digitOf c = Some d \<Longrightarrow> int (of_char c) = 48 + d \<and> 0 \<le> d \<and> d \<le> 9"
  by (auto simp: digitOf_def split: if_splits)

lemma parseDigits_value:
  "list_all (\<lambda>c. digitOf c \<noteq> None) s \<Longrightarrow>
     \<exists>v. parseDigits s acc = Some (acc * 10 ^ length s + v) \<and> 0 \<le> v \<and> v < 10 ^ length s"
proof (induction s arbitrary: acc)
  case Nil
  then show ?case by simp
next
  case (Cons c s)
  then obtain d where d: "digitOf c = Some d" by auto
  from digitOf_code[OF d] have db: "0 \<le> d" "d \<le> 9" by simp_all
  from Cons.IH[of "10 * acc + d"] Cons.prems obtain v where
    v: "parseDigits s (10 * acc + d) = Some ((10 * acc + d) * 10 ^ length s + v)" "0 \<le> v" "v < 10 ^ length s"
    by auto
  let ?P = "(10::int) ^ length s"
  have "(10 * acc + d) * ?P + v = acc * 10 ^ length (c # s) + (d * ?P + v)"
    by (simp add: algebra_simps)
  moreover have "0 \<le> d * ?P + v" using db v by simp
  moreover have "d * ?P + v < 10 ^ length (c # s)"
  proof -
    have "d * ?P \<le> 9 * ?P" using db by (simp add: mult_right_mono)
    with v(3) have "d * ?P + v < 9 * ?P + ?P" by linarith
    then show ?thesis by simp
  qed
  ultimately show ?case using d v(1) by auto
qed


lemma digitOf_inj: "digitOf x = Some d \<Longrightarrow> digitOf y = Some d \<Longrightarrow> x = y"
  by (auto simp: digitOf_def split: if_splits)

lemma localeCompare_numeric:
  assumes "length a = length b"
    and "list_all (\<lambda>c. digitOf c \<noteq> None) a" and "list_all (\<lambda>c. digitOf c \<noteq> None) b"
    and "parseDigits a acc = Some x" and "parseDigits b acc = Some y"
  shows "(localeCompare a b \<le> 0) = (x \<le> y)"
  using assms
proof (induction a b arbitrary: acc rule: list_induct2)
  case Nil
  then show ?case by simp
next
  case (Cons c cs e es)
  from Cons.prems obtain dc de where dc: "digitOf c = Some dc" and de: "digitOf e = Some de" by auto
  note cc = digitOf_code[OF dc] and ce = digitOf_code[OF de]
  let ?P = "(10::int) ^ length cs"
  from parseDigits_value[of cs "10 * acc + dc"] Cons.prems dc obtain vx where
    vx: "x = (10 * acc + dc) * ?P + vx" "0 \<le> vx" "vx < ?P" by auto
  from parseDigits_value[of es "10 * acc + de"] Cons.prems de Cons.hyps obtain vy where
    vy: "y = (10 * acc + de) * ?P + vy" "0 \<le> vy" "vy < ?P" by auto
  show ?case
  proof (cases "c = e")
    case True
    with dc de have "dc = de" by simp
    with Cons.IH[of "10 * acc + dc"] Cons.prems dc de True show ?thesis by simp
  next
    case False
    with dc de digitOf_inj have ne: "dc \<noteq> de" by blast
    have lt: "((of_char c :: nat) < of_char e) = (dc < de)" using cc ce by linarith
    show ?thesis
    proof (cases "dc < de")
      case True
      then have "10 * acc + dc + 1 \<le> 10 * acc + de" by simp
      then have "(10 * acc + dc + 1) * ?P \<le> (10 * acc + de) * ?P"
        by (rule mult_right_mono) simp
      then have "(10 * acc + dc) * ?P + ?P \<le> (10 * acc + de) * ?P"
        by (simp add: algebra_simps)
      with vx vy have "x \<le> y" by linarith
      with False lt True show ?thesis by simp
    next
      case F: False
      with ne have "de < dc" by simp
      then have "10 * acc + de + 1 \<le> 10 * acc + dc" by simp
      then have "(10 * acc + de + 1) * ?P \<le> (10 * acc + dc) * ?P"
        by (rule mult_right_mono) simp
      then have "(10 * acc + de) * ?P + ?P \<le> (10 * acc + dc) * ?P"
        by (simp add: algebra_simps)
      with vx vy have "\<not> x \<le> y" by linarith
      with False lt F show ?thesis by simp
    qed
  qed
qed


text \<open>
  What the batch is in general: the fetched references without repetition and without the
  agent's own tweets, in ascending order of the identifiers as strings. When all identifiers
  are digit strings of one length, this is the ascending order of their numbers.
\<close>

lemma fetchAndFilterTweets_equal_length_ascending:
  assumes f: "fetchSearchTweets env = Inr refs"
    and len: "\<forall>r \<in> set refs. length (id_tw (heap env r)) = n"
    and dig: "\<forall>r \<in> set refs. list_all (\<lambda>c. digitOf c \<noteq> None) (id_tw (heap env r))"
  shows "\<exists>res. fetchAndFilterTweets env = Inr res \<and>
           sorted_wrt (\<lambda>a b. \<exists>x y. BigInt (id_tw (heap env a)) = Inr x \<and>
                                 BigInt (id_tw (heap env b)) = Inr y \<and> x \<le> y) res"
proof -
  from fetchAndFilterTweets_result[OF f] obtain res where
    r: "fetchAndFilterTweets env = Inr res" and
    sub: "set res = {r \<in> set refs. userId (heap env r) \<noteq> profileId env}" and
    srt: "sorted_wrt (\<lambda>a b. localeCompare (id_tw (heap env a)) (id_tw (heap env b)) \<le> 0) res"
    by blast
  have "sorted_wrt (\<lambda>a b. \<exists>x y. BigInt (id_tw (heap env a)) = Inr x \<and>
                                 BigInt (id_tw (heap env b)) = Inr y \<and> x \<le> y) res"
  proof (rule sorted_wrt_mono_rel[OF _ srt])
    fix a b assume a: "a \<in> set res" and b: "b \<in> set res"
      and c: "localeCompare (id_tw (heap env a)) (id_tw (heap env b)) \<le> 0"
    from a b sub have ar: "a \<in> set refs" and br: "b \<in> set refs" by auto
    from parseDigits_value[of "id_tw (heap env a)" 0] dig ar obtain x where
      x: "parseDigits (id_tw (heap env a)) 0 = Some x" by auto
    from parseDigits_value[of "id_tw (heap env b)" 0] dig br obtain y where
      y: "parseDigits (id_tw (heap env b)) 0 = Some y" by auto
    from localeCompare_numeric[OF _ _ _ x y] len dig ar br c have "x \<le> y" by simp
    with x y show "\<exists>x y. BigInt (id_tw (heap env a)) = Inr x \<and>
                         BigInt (id_tw (heap env b)) = Inr y \<and> x \<le> y"
      using dig ar br by (simp add: BigInt_digits)
  qed
  with r show ?thesis by blast
qed

text \<open>
  Claim C8. The claim is that the batch comes back in ascending order of tweet identifier. The
  code sorts with \<^verbatim>\<open>a.id.localeCompare(b.id)\<close>, which compares the identifiers as strings,
  while \<^verbatim>\<open>processTweetCandidate\<close> compares them as numbers through \<^verbatim>\<open>BigInt\<close>. For the
  tweets 9 and 10, fetched in this order, the string \<open>10\<close> sorts before the string \<open>9\<close>: the
  batch comes back as 10, 9, which is descending. In the check cycle tweet 10 is then processed
  first and moves the mark to 10, and tweet 9 is skipped.
\<close>

theorem fetchAndFilterTweets_string_order:
  "fetchSearchTweets nineTenEnv = Inr [1, 2]
   \<and> map (\<lambda>r. id_tw (heap nineTenEnv r)) [1, 2] = [''9'', ''10'']
   \<and> fetchAndFilterTweets nineTenEnv = Inr [2, 1]
   \<and> map (\<lambda>r. BigInt (id_tw (heap nineTenEnv r))) [2, 1] = [Inr 10, Inr 9]
   \<and> logged (snd (snd (handleTwitterInteractions nineTenEnv defaultLimits freshState exampleWorld)))
       = [LogChecking, LogProcessing ''10'', LogFinished]"
  by (simp add: fetchAndFilterTweets_def nineTenEnv_def exampleEnv_def newSet_def sortBy_def
      tweetOf_def handleTwitterInteractions_def processTweetCandidate_def isNewerThanMark_def
      freshState_def shouldProcessTweet_def canReplyToUser_def canReplyInThread_def
      getOrZero_def defaultLimits_def exampleWorld_def Date_now_def Math_random_def
      writeLog_def processSingleTweet_def handleTweet_def updateInteractionTracking_def
      BigInt_examples Let_def)

subsection \<open>Thread reconstruction\<close>













subsection \<open>Registration of the special interactions\<close>

lemma validateInteractions_filter:
  "\<forall>p \<in> set todo. snd p \<noteq> None \<Longrightarrow>
     fst (validateInteractions todo m w) = None \<and>
     fst (snd (validateInteractions todo m w)) = filter (\<lambda>p. fst p \<notin> set (invalidKeys todo)) m"
proof (induction todo arbitrary: m w)
  case Nil
  then show ?case by (simp add: invalidKeys_def)
next
  case (Cons a todo)
  obtain k i where a: "a = (k, Some i)" using Cons.prems by (cases a) auto
  have rest: "\<forall>p \<in> set todo. snd p \<noteq> None" using Cons.prems by simp
  show ?case
  proof (cases "isInvalidInteraction i")
    case True
    have ik: "set (invalidKeys (a # todo)) = insert k (set (invalidKeys todo))"
      using a True by (auto simp: invalidKeys_def)
    have "AList.delete k m = filter (\<lambda>p. fst p \<noteq> k) m"
      by (simp add: AList.delete_eq case_prod_beta' eq_commute)
    with Cons.IH[OF rest, of "AList.delete k m" "writeLog (LogWarnInvalid k) w"] a True ik
    show ?thesis by (simp add: conj_commute)
  next
    case False
    have ik: "set (invalidKeys (a # todo)) = set (invalidKeys todo)"
      using a False by (auto simp: invalidKeys_def)
    with Cons.IH[OF rest, of m w] a False show ?thesis by simp
  qed
qed

lemma filter_invalidKeys:
  assumes d: "distinct (map fst m)" and nn: "\<forall>p \<in> set m. snd p \<noteq> None"
  shows "filter (\<lambda>p. fst p \<notin> set (invalidKeys m)) m = filter isRegistered m"
proof (rule filter_cong[OF refl])
  fix p assume p: "p \<in> set m"
  obtain k i where pk: "p = (k, Some i)" using nn p by (cases p) auto
  have "k \<in> set (invalidKeys m) \<longleftrightarrow> isInvalidInteraction i"
  proof
    assume "k \<in> set (invalidKeys m)"
    then obtain j where j: "(k, Some j) \<in> set m" "isInvalidInteraction j"
      by (auto simp: invalidKeys_def split: option.splits)
    from d j(1) p pk have "Some j = Some i" by (metis eq_key_imp_eq_value)
    with j(2) show "isInvalidInteraction i" by simp
  next
    assume "isInvalidInteraction i"
    with p pk show "k \<in> set (invalidKeys m)" by (force simp: invalidKeys_def)
  qed
  with pk show "(fst p \<notin> set (invalidKeys m)) = isRegistered p" by (simp add: isRegistered_def)
qed

lemma validateInteractions_null_entry:
  "(key, None) \<in> set todo \<Longrightarrow> fst (validateInteractions todo m w) = Some TypeError"
  by (induction todo arbitrary: m w) (auto split: option.splits)

lemma isRegistered_keptEntry: "isRegistered p = keptEntry p"
  by (auto simp: isRegistered_def keptEntry_def keptInteraction_def isInvalidInteraction_def
      split: option.splits)

lemma keptInteraction_fields:
  "keptInteraction i \<longleftrightarrow>
     \<not> (handle i = None \<or> handle i = Some [] \<or> templates_si i = None \<or>
        probability_si i = None \<or> probability_si i = Some 0)"
  by (auto simp: keptInteraction_def split: option.splits)

lemma setupSpecialInteractions_objects:
  assumes d: "distinct (map fst interactions)" and nn: "\<forall>p \<in> set interactions. snd p \<noteq> None"
  shows "\<exists>w'. setupSpecialInteractions interactions mgr w
           = (None,
              mgr\<lparr>post := setSpecialInteractions (filter keptEntry interactions) (post mgr),
                  interaction :=
                    setSpecialInteractions (filter keptEntry interactions) (interaction mgr)\<rparr>,
              w')"
proof -
  obtain err rem w' where v: "validateInteractions interactions interactions w = (err, rem, w')"
    by (cases "validateInteractions interactions interactions w") auto
  from validateInteractions_filter[OF nn, of interactions w] v filter_invalidKeys[OF d nn]
  have e: "err = None" and r: "rem = filter isRegistered interactions" by simp_all
  have "filter isRegistered interactions = filter keptEntry interactions"
    by (rule filter_cong[OF refl]) (rule isRegistered_keptEntry)
  with v e r show ?thesis by (simp add: setupSpecialInteractions_def)
qed

text \<open>
  Claim C10 as it is stated fails. The claim drops an entry whose probability is 0 or whose
  handle or templates are missing, and registers all others. The entry \<open>quiet\<close> has the empty
  string for its handle, templates and the probability \<open>0.5\<close>, and the schema accepts it; the
  entry \<open>unweighted\<close> has a handle and templates and no probability. Neither has the
  probability 0, and neither lacks its handle or its templates, yet \<^verbatim>\<open>!interaction.handle\<close>
  is true for the empty string and \<^verbatim>\<open>!interaction.probability\<close> is true for a missing
  probability: both are dropped and the clients receive nothing. A mapping with a value
  \<^verbatim>\<open>null\<close> makes the validation throw, and the valid entry beside it is not registered
  either.
\<close>

theorem setupSpecialInteractions_drops_empty_handle:
  "specialInteractionSchema quietInteraction
   \<and> handle quietInteraction = Some []
   \<and> templates_si quietInteraction = Some [''praise'']
   \<and> probability_si quietInteraction = Some (1 / 2)
   \<and> handle unweightedInteraction = Some ''unweighted''
   \<and> templates_si unweightedInteraction = Some [''praise'']
   \<and> probability_si unweightedInteraction = None
   \<and> fst (setupSpecialInteractions
            [(''quiet'', Some quietInteraction), (''unweighted'', Some unweightedInteraction)]
            freshManager exampleWorld) = None
   \<and> specialInteractions (post (fst (snd (setupSpecialInteractions
            [(''quiet'', Some quietInteraction), (''unweighted'', Some unweightedInteraction)]
            freshManager exampleWorld)))) = []
   \<and> specialInteractions (interaction (fst (snd (setupSpecialInteractions
            [(''quiet'', Some quietInteraction), (''unweighted'', Some unweightedInteraction)]
            freshManager exampleWorld)))) = []
   \<and> fst (setupSpecialInteractions [(''vip'', Some vipInteraction), (''broken'', None)]
            freshManager exampleWorld) = Some TypeError
   \<and> specialInteractions (post (fst (snd (setupSpecialInteractions
            [(''vip'', Some vipInteraction), (''broken'', None)] freshManager exampleWorld)))) = []
   \<and> specialInteractions (interaction (fst (snd (setupSpecialInteractions
            [(''vip'', Some vipInteraction), (''broken'', None)] freshManager exampleWorld)))) = []"
  by (simp add: setupSpecialInteractions_def isInvalidInteraction_def setSpecialInteractions_def
      specialInteractionSchema_def quietInteraction_def unweightedInteraction_def
      vipInteraction_def freshManager_def)

text \<open>
  Claim C10, amended. For a mapping whose values are all objects (the keys of a mapping are
  distinct): \<^verbatim>\<open>setupSpecialInteractions\<close> does not throw; an entry whose handle is missing or
  empty, whose templates are missing, or whose probability is missing or 0 is dropped and
  registered with neither client, although the schema of the configuration accepts the
  probability 0 and the empty handle; all remaining entries are registered with both clients,
  unchanged and in their order. When a value of the mapping is \<^verbatim>\<open>null\<close>,
  \<^verbatim>\<open>setupSpecialInteractions\<close> throws a \<^verbatim>\<open>TypeError\<close> and registers nothing.
\<close>

theorem setupSpecialInteractions_drops_invalid:
  "(distinct (map fst interactions) \<and> (\<forall>p \<in> set interactions. snd p \<noteq> None) \<longrightarrow>
      fst (setupSpecialInteractions interactions mgr w) = None
      \<and> specialInteractions (post (fst (snd (setupSpecialInteractions interactions mgr w))))
          = filter keptEntry interactions
      \<and> specialInteractions (interaction (fst (snd (setupSpecialInteractions interactions mgr w))))
          = filter keptEntry interactions
      \<and> (\<forall>k i. (k, Some i) \<in> set interactions \<and>
            (handle i = None \<or> handle i = Some [] \<or> templates_si i = None \<or>
             probability_si i = None \<or> probability_si i = Some 0) \<longrightarrow>
            k \<notin> fst ` set (specialInteractions
                   (post (fst (snd (setupSpecialInteractions interactions mgr w)))))
            \<and> k \<notin> fst ` set (specialInteractions
                   (interaction (fst (snd (setupSpecialInteractions interactions mgr w))))))
      \<and> (\<forall>k i. (k, Some i) \<in> set interactions \<and>
            \<not> (handle i = None \<or> handle i = Some [] \<or> templates_si i = None \<or>
               probability_si i = None \<or> probability_si i = Some 0) \<longrightarrow>
            (k, Some i) \<in> set (specialInteractions
                   (post (fst (snd (setupSpecialInteractions interactions mgr w)))))
            \<and> (k, Some i) \<in> set (specialInteractions
                   (interaction (fst (snd (setupSpecialInteractions interactions mgr w)))))))
   \<and> ((key, None) \<in> set interactions \<longrightarrow>
        fst (setupSpecialInteractions interactions mgr w) = Some TypeError
        \<and> fst (snd (setupSpecialInteractions interactions mgr w)) = mgr)"
proof (intro conjI impI)
  assume "(key, None) \<in> set interactions"
  from validateInteractions_null_entry[OF this, of interactions w]
  obtain rem w' where "validateInteractions interactions interactions w = (Some TypeError, rem, w')"
    by (cases "validateInteractions interactions interactions w") auto
  then show "fst (setupSpecialInteractions interactions mgr w) = Some TypeError"
    and "fst (snd (setupSpecialInteractions interactions mgr w)) = mgr"
    by (simp_all add: setupSpecialInteractions_def)
next
  assume a: "distinct (map fst interactions) \<and> (\<forall>p \<in> set interactions. snd p \<noteq> None)"
  then have d: "distinct (map fst interactions)" by simp
  from a setupSpecialInteractions_objects[of interactions mgr w] obtain w' where
    s: "setupSpecialInteractions interactions mgr w
           = (None,
              mgr\<lparr>post := setSpecialInteractions (filter keptEntry interactions) (post mgr),
                  interaction :=
                    setSpecialInteractions (filter keptEntry interactions) (interaction mgr)\<rparr>,
              w')"
    by blast
  show "fst (setupSpecialInteractions interactions mgr w) = None" using s by simp
  show p: "specialInteractions (post (fst (snd (setupSpecialInteractions interactions mgr w))))
          = filter keptEntry interactions"
    using s by (simp add: setSpecialInteractions_def)
  show q: "specialInteractions (interaction (fst (snd (setupSpecialInteractions interactions mgr w))))
          = filter keptEntry interactions"
    using s by (simp add: setSpecialInteractions_def)
  have drop: "\<And>k i. (k, Some i) \<in> set interactions \<Longrightarrow> \<not> keptInteraction i \<Longrightarrow>
          k \<notin> fst ` set (filter keptEntry interactions)"
  proof
    fix k i assume ki: "(k, Some i) \<in> set interactions" and bad: "\<not> keptInteraction i"
      and "k \<in> fst ` set (filter keptEntry interactions)"
    then obtain e where e: "(k, e) \<in> set interactions" "keptEntry (k, e)" by auto
    from d ki e(1) have "e = Some i" by (metis eq_key_imp_eq_value)
    with e(2) bad show False by (simp add: keptEntry_def)
  qed
  show "\<forall>k i. (k, Some i) \<in> set interactions \<and>
            (handle i = None \<or> handle i = Some [] \<or> templates_si i = None \<or>
             probability_si i = None \<or> probability_si i = Some 0) \<longrightarrow>
            k \<notin> fst ` set (specialInteractions
                   (post (fst (snd (setupSpecialInteractions interactions mgr w)))))
            \<and> k \<notin> fst ` set (specialInteractions
                   (interaction (fst (snd (setupSpecialInteractions interactions mgr w)))))"
    unfolding p q using drop keptInteraction_fields by blast
  show "\<forall>k i. (k, Some i) \<in> set interactions \<and>
            \<not> (handle i = None \<or> handle i = Some [] \<or> templates_si i = None \<or>
               probability_si i = None \<or> probability_si i = Some 0) \<longrightarrow>
            (k, Some i) \<in> set (specialInteractions
                   (post (fst (snd (setupSpecialInteractions interactions mgr w)))))
            \<and> (k, Some i) \<in> set (specialInteractions
                   (interaction (fst (snd (setupSpecialInteractions interactions mgr w)))))"
    unfolding p q using keptInteraction_fields by (auto simp: keptEntry_def)
qed

text \<open>
  The schema accepts the first three of the four example entries. From the mapping of all
  four, the one with probability 0, the one with the empty handle and the one with no
  probability are dropped, and both clients receive the remaining one. With a value \<^verbatim>\<open>null\<close> in the mapping the manager is
  left as it was.
\<close>

theorem setupSpecialInteractions_drops_invalid_witness:
  "distinct (map fst [(''vip'', Some vipInteraction), (''muted'', Some mutedInteraction),
                      (''quiet'', Some quietInteraction),
                      (''unweighted'', Some unweightedInteraction)])
   \<and> specialInteractionSchema vipInteraction \<and> specialInteractionSchema mutedInteraction
   \<and> specialInteractionSchema quietInteraction
   \<and> probability_si mutedInteraction = Some 0
   \<and> fst (setupSpecialInteractions
            [(''vip'', Some vipInteraction), (''muted'', Some mutedInteraction),
             (''quiet'', Some quietInteraction), (''unweighted'', Some unweightedInteraction)]
            freshManager exampleWorld) = None
   \<and> specialInteractions (post (fst (snd (setupSpecialInteractions
            [(''vip'', Some vipInteraction), (''muted'', Some mutedInteraction),
             (''quiet'', Some quietInteraction), (''unweighted'', Some unweightedInteraction)]
            freshManager exampleWorld)))) = [(''vip'', Some vipInteraction)]
   \<and> specialInteractions (interaction (fst (snd (setupSpecialInteractions
            [(''vip'', Some vipInteraction), (''muted'', Some mutedInteraction),
             (''quiet'', Some quietInteraction), (''unweighted'', Some unweightedInteraction)]
            freshManager exampleWorld)))) = [(''vip'', Some vipInteraction)]
   \<and> (''broken'', None) \<in> set [(''vip'', Some vipInteraction), (''broken'', None)]
   \<and> fst (setupSpecialInteractions [(''vip'', Some vipInteraction), (''broken'', None)]
            freshManager exampleWorld) = Some TypeError
   \<and> fst (snd (setupSpecialInteractions [(''vip'', Some vipInteraction), (''broken'', None)]
            freshManager exampleWorld)) = freshManager"
proof -
  let ?m = "[(''vip'', Some vipInteraction), (''muted'', Some mutedInteraction),
             (''quiet'', Some quietInteraction), (''unweighted'', Some unweightedInteraction)]"
  let ?n = "[(''vip'', Some vipInteraction), (''broken'', None)]"
  have d: "distinct (map fst ?m)" by simp
  have nn: "\<forall>p \<in> set ?m. snd p \<noteq> None" by simp
  have f: "filter keptEntry ?m = [(''vip'', Some vipInteraction)]"
    by (simp add: keptEntry_def keptInteraction_def vipInteraction_def mutedInteraction_def
        quietInteraction_def unweightedInteraction_def)
  have sch: "specialInteractionSchema vipInteraction \<and> specialInteractionSchema mutedInteraction
               \<and> specialInteractionSchema quietInteraction
               \<and> probability_si mutedInteraction = Some 0"
    by (simp add: specialInteractionSchema_def vipInteraction_def mutedInteraction_def
        quietInteraction_def)
  have b: "(''broken'', None) \<in> set ?n" by simp
  from setupSpecialInteractions_drops_invalid
    [where interactions = ?m and mgr = freshManager and w = exampleWorld] d nn f
  have objects: "fst (setupSpecialInteractions ?m freshManager exampleWorld) = None
      \<and> specialInteractions (post (fst (snd (setupSpecialInteractions ?m freshManager
            exampleWorld)))) = [(''vip'', Some vipInteraction)]
      \<and> specialInteractions (interaction (fst (snd (setupSpecialInteractions ?m freshManager
            exampleWorld)))) = [(''vip'', Some vipInteraction)]"
    by simp
  from setupSpecialInteractions_drops_invalid
    [where interactions = ?n and mgr = freshManager and w = exampleWorld
       and key = "''broken''"] b
  have null: "fst (setupSpecialInteractions ?n freshManager exampleWorld) = Some TypeError
      \<and> fst (snd (setupSpecialInteractions ?n freshManager exampleWorld)) = freshManager"
    by blast
  from d sch objects b null show ?thesis by simp
qed

end
